theory Spec2Isabelle
  imports Main "HOL-Library.Sublist"
begin

section \<open>Values, exceptions and the settings dictionary\<close>

text \<open>
  The builder of \<^verbatim>\<open>src/python3/glivedisk/builder.py\<close> keeps its configuration in a Python
  dictionary whose values are strings or lists of strings. Exceptions are values of
  type \<open>exn\<close>; a computation that may raise returns \<open>exn + 'a\<close> with \<open>Inl\<close> the raise.
\<close>

datatype pyval = Str string | Lst "string list"

datatype exn =
    CatalystError string
  | KeyError string
  | TypeError string
  | NameError string
  | AttributeError string
  | OSError string

text \<open>A dictionary given by the caller, in insertion order (iteration yields the keys).\<close>

type_synonym pydict = "(string \<times> pyval) list"

definition keys :: "pydict \<Rightarrow> string list" where
  "keys d = map fst d"

definition dict_set :: "string \<Rightarrow> pyval \<Rightarrow> pydict \<Rightarrow> pydict" where
  "dict_set k v d = (if k \<in> set (keys d) then map (\<lambda>(k', v'). if k' = k then (k', v) else (k', v')) d
                     else d @ [(k, v)])"

text \<open>Python's \<^verbatim>\<open>sep.join(xs)\<close>.\<close>

fun str_join :: "string \<Rightarrow> string list \<Rightarrow> string" where
  "str_join sep [] = []"
| "str_join sep [x] = x"
| "str_join sep (x # y # ys) = x @ sep @ str_join sep (y # ys)"

section \<open>Validation of the settings at construction\<close>

definition required_values :: "string list" where
  "required_values =
    [''storedir'', ''sharedir'', ''distdir'', ''portdir'', ''version_stamp'', ''target'',
     ''subarch'', ''rel_type'', ''profile'', ''snapshot'', ''source_subpath'']"

definition valid_values :: "string list" where
  "valid_values =
    [''portage_confdir'', ''portage_prefix'', ''portage_overlay'', ''cflags'', ''cxxflags'',
     ''fcflags'', ''fflags'', ''ldflags'', ''asflags'', ''common_flags'', ''cbuild'',
     ''hostuse'', ''catalyst_use'', ''distcc_hosts'', ''makeopts'', ''pkgcache_path'',
     ''kerncache_path'', ''compression_mode'', ''decompression_mode'', ''interpreter'',
     ''fstype'', ''fsopts'', ''options'', ''snapshot_cache'', ''hash_function'', ''digests'',
     ''contents'', ''compressor_arch'', ''compression_mode'', ''compressor_options'',
     ''decompressor_search_order'']"

text \<open>
  \<^verbatim>\<open>set_valid_build_kernel_vars\<close>: for every kernel named under \<^verbatim>\<open>boot/kernel\<close> thirteen
  per-kernel keys are appended to the (class level) list of valid values, and a
  \<^verbatim>\<open>packages\<close> entry that is a string becomes a one-element list. The function takes
  the list of valid values in force and returns it extended, with the updated dictionary.
\<close>

definition kernel_keys :: "string \<Rightarrow> string list" where
  "kernel_keys x = map (\<lambda>suffix. ''boot/kernel/'' @ x @ suffix)
     [''/aliases'', ''/config'', ''/console'', ''/extraversion'', ''/gk_action'',
      ''/gk_kernargs'', ''/initramfs_overlay'', ''/machine_type'', ''/sources'',
      ''/softlevel'', ''/use'', ''/packages'', ''/kernelopts'']"

fun kernel_vars_loop :: "string list \<Rightarrow> string list \<times> pydict \<Rightarrow> string list \<times> pydict" where
  "kernel_vars_loop [] (vv, addlargs) = (vv, addlargs)"
| "kernel_vars_loop (x # xs) (vv, addlargs) =
     kernel_vars_loop xs
       (vv @ kernel_keys x,
        (case map_of addlargs (''boot/kernel/'' @ x @ ''/packages'') of
           Some (Str s) \<Rightarrow> dict_set (''boot/kernel/'' @ x @ ''/packages'') (Lst [s]) addlargs
         | _ \<Rightarrow> addlargs))"

definition set_valid_build_kernel_vars :: "string list \<Rightarrow> pydict \<Rightarrow> string list \<times> pydict" where
  "set_valid_build_kernel_vars vv addlargs =
     (case map_of addlargs ''boot/kernel'' of
        None \<Rightarrow> (vv, addlargs)
      | Some (Str s) \<Rightarrow> kernel_vars_loop [s] (vv, addlargs)
      | Some (Lst loopy) \<Rightarrow> kernel_vars_loop loopy (vv, addlargs))"

text \<open>\<^verbatim>\<open>_addl_arg_parse\<close>: the two loops collect messages; any message raises.\<close>

definition msg_not_recognized :: "string \<Rightarrow> string" where
  \<open>msg_not_recognized x = ''Argument "'' @ x @ ''" not recognized.''\<close>

definition msg_not_specified :: "string \<Rightarrow> string" where
  \<open>msg_not_specified x = ''Required argument "'' @ x @ ''" not specified.''\<close>

definition also_sep :: string where
  "also_sep = [CHR 0x0A, CHR 0x09] @ ''Also: ''"

definition addl_arg_messages :: "string list \<Rightarrow> string list \<Rightarrow> pydict \<Rightarrow> string list" where
  "addl_arg_messages vv rv myspec =
     map msg_not_recognized (filter (\<lambda>x. x \<notin> set vv \<and> x \<notin> set rv) (keys myspec))
     @ map msg_not_specified (filter (\<lambda>x. x \<notin> set (keys myspec)) rv)"

definition addl_arg_parse :: "string list \<Rightarrow> string list \<Rightarrow> pydict \<Rightarrow> exn + unit" where
  "addl_arg_parse vv rv myspec =
     (let messages = addl_arg_messages vv rv myspec
      in if length messages > 0 then Inl (CatalystError (str_join also_sep messages))
         else Inr ())"

text \<open>
  The first two statements of \<^verbatim>\<open>Builder.__init__\<close>: the valid values are extended from
  the settings, then the settings are checked against them. The result is the list of
  valid values in force and the settings the builder keeps.
\<close>

definition init_validate :: "string list \<Rightarrow> pydict \<Rightarrow> exn + (string list \<times> pydict)" where
  "init_validate vv settings =
     (case set_valid_build_kernel_vars vv settings of
        (vv', settings') \<Rightarrow>
          (case addl_arg_parse vv' required_values settings' of
             Inl e \<Rightarrow> Inl e
           | Inr _ \<Rightarrow> Inr (vv', settings')))"

section \<open>The action sequence\<close>

text \<open>
  The keys of \<^verbatim>\<open>self.settings\<close> that construction always sets are fields of a record;
  keys whose presence depends on the input are \<open>option\<close> fields, and keys whose name is
  computed (\<^verbatim>\<open>boot/kernel/<name>/...\<close>, the values copied from make.conf) live in the
  dictionary \<open>extra\<close>.
\<close>

record settings =
  options :: "string list"
  action_sequence :: "string list"
  chroot_path :: string
  sharedir :: string
  shdir :: string
  controller_file :: string
  source_path :: string
  source_path_hash :: "string option"
  snapshot_path :: string
  snapshot_path_hash :: string
  snapshot_cache_path :: string
  repo_basedir :: string
  repo_name :: string
  compressor_arch :: string
  compressor_options :: string
  compression_mode :: string
  pkgcache_path :: string
  kerncache_path :: string
  target_path :: string
  stage_path :: string
  destpath :: string
  cleanables :: "string list"
  port_conf :: string
  portage_confdir :: "string option"
  portage_overlay :: "string list option"
  local_overlay :: string
  make_conf :: string
  interpreter :: "pyval option"
  portage_prefix :: "string option"
  var_tmpfs_portage :: "string option"
  contents :: "string option"
  digests :: "string option"
  contents_map_set :: bool
  hash_map_set :: bool
  extra :: "string \<rightharpoonup> pyval"

definition set_completion_action_sequences :: "settings \<Rightarrow> settings" where
  "set_completion_action_sequences s =
     (let s1 = (if ''fetch'' \<notin> set (options s)
                then s\<lparr>action_sequence := action_sequence s @ [''capture'']\<rparr> else s)
      in if ''keepwork'' \<in> set (options s1)
         then s1\<lparr>action_sequence := action_sequence s1 @ [''clear_autoresume'']\<rparr>
         else if ''seedcache'' \<in> set (options s1)
         then s1\<lparr>action_sequence := action_sequence s1 @ [''remove_autoresume'']\<rparr>
         else (let s2 = s1\<lparr>action_sequence := action_sequence s1 @ [''remove_autoresume'']\<rparr>
               in s2\<lparr>action_sequence := action_sequence s2 @ [''remove_chroot'']\<rparr>))"

definition set_action_sequence :: "settings \<Rightarrow> settings" where
  "set_action_sequence s =
     set_completion_action_sequences
       (s\<lparr>action_sequence :=
            [''unpack'', ''unpack_snapshot'', ''setup_confdir'', ''portage_overlay'',
             ''base_dirs'', ''bind'', ''chroot_setup'', ''setup_environment'',
             ''run_local'', ''preclean'', ''unbind'', ''clean'']\<rparr>)"

definition set_default_action_sequence :: "settings \<Rightarrow> settings" where
  "set_default_action_sequence s =
     (if ''purgeonly'' \<in> set (options s)
      then s\<lparr>action_sequence := [''remove_chroot'']\<rparr>
      else set_action_sequence s)"

section \<open>The host, the resume store and the builder's state\<close>

text \<open>
  Everything the builder does to the operating system goes through a few calls: external
  processes started by \<^verbatim>\<open>cmd\<close>, the file operations of \<^verbatim>\<open>fileops\<close>, \<^verbatim>\<open>shutil\<close> and \<^verbatim>\<open>os\<close>,
  the archive library, and queries of the file system. Each call that acts is an
  \<open>event\<close>; the builder's state keeps the list of events it has caused (\<open>trace\<close>), which
  is what a test double would observe. Of the log output the trace records the
  warnings and errors, and the notices of the mount subsystem; other log calls, which
  change nothing, are left out, and so is the environment dictionary handed to child
  processes.
\<close>

datatype level = Notice | Warning | Error

datatype event =
    Proc "string list"
  | Log level string
  | EnsureDirs string
  | ClearDir string bool
  | ClearPath string
  | Extract string string "string option"
  | Compress string string string
  | CopyFile string string
  | CopyTree string string
  | Rename string string
  | Remove string
  | WriteFile string string
  | WriteMakeConf string bool

text \<open>
  The host is a parameter of the model: \<open>'w\<close> is the state of the operating system, about
  which nothing is assumed. \<open>run_proc\<close> runs a child process and tells whether it exited
  with status zero; \<open>run_op\<close> performs any other event and returns the call's boolean
  result or the exception it raised. The queries are those of \<^verbatim>\<open>os.path\<close> and of the
  \<^verbatim>\<open>support\<close> module, which is not part of the sources at hand.
\<close>

record 'w host =
  path_exists :: "'w \<Rightarrow> string \<Rightarrow> bool"
  path_isdir :: "'w \<Rightarrow> string \<Rightarrow> bool"
  path_isfile :: "'w \<Rightarrow> string \<Rightarrow> bool"
  ismount :: "'w \<Rightarrow> string \<Rightarrow> bool"
  normpath :: "string \<Rightarrow> string"
  uname :: string
  run_proc :: "string list \<Rightarrow> 'w \<Rightarrow> bool \<times> 'w"
  run_op :: "event \<Rightarrow> 'w \<Rightarrow> (exn + bool) \<times> 'w"
  file_check :: "'w \<Rightarrow> string \<Rightarrow> exn + string"
  readfile :: "'w \<Rightarrow> string \<Rightarrow> string option"
  determine_mode :: "'w \<Rightarrow> string \<Rightarrow> string"
  extension :: "string \<Rightarrow> string"
  read_makeconf :: "'w \<Rightarrow> string \<Rightarrow> (string \<times> string) list"

text \<open>
  Modelled from the spec: the class \<^verbatim>\<open>AutoResume\<close> of the module \<^verbatim>\<open>resume\<close>, which is not
  among the sources. The spec's CheckpointStore keeps, per stage name, whether the stage
  is satisfied and an optional string of data; \<^verbatim>\<open>is_enabled\<close> is its \<open>is_satisfied\<close>,
  \<^verbatim>\<open>enable\<close> its \<open>record\<close>, \<^verbatim>\<open>get\<close> its \<open>get_data\<close>, and \<^verbatim>\<open>clear_all\<close> removes every
  checkpoint and, asked to, the backing directory.
\<close>

record resume_store =
  points :: "string \<rightharpoonup> string option"
  basedir_present :: bool

definition is_enabled :: "resume_store \<Rightarrow> string \<Rightarrow> bool" where
  "is_enabled r p = (points r p \<noteq> None)"

definition enable :: "string \<Rightarrow> string option \<Rightarrow> resume_store \<Rightarrow> resume_store" where
  "enable p data r = r\<lparr>points := (points r)(p \<mapsto> data)\<rparr>"

definition get_data :: "resume_store \<Rightarrow> string \<Rightarrow> string option" where
  "get_data r p = (case points r p of Some (Some d) \<Rightarrow> Some d | _ \<Rightarrow> None)"

definition clear_all :: "bool \<Rightarrow> resume_store \<Rightarrow> resume_store" where
  "clear_all remove r =
     r\<lparr>points := Map.empty, basedir_present := (basedir_present r \<and> \<not> remove)\<rparr>"

text \<open>The builder object: its settings, the mount tables, the resume store, the host's
  state and the trace.\<close>

record 'w builder =
  settings :: settings
  mounts :: "string list"
  target_mounts :: "string \<rightharpoonup> string"
  mountmap :: "string \<rightharpoonup> string option"
  resume :: resume_store
  world :: 'w
  trace :: "event list"

subsection \<open>Computations that change the builder and may raise\<close>

type_synonym ('w, 'a) action = "'w builder \<Rightarrow> (exn + 'a) \<times> 'w builder"

definition ret :: "'a \<Rightarrow> ('w, 'a) action" where
  "ret a = (\<lambda>st. (Inr a, st))"

definition raise :: "exn \<Rightarrow> ('w, 'a) action" where
  "raise e = (\<lambda>st. (Inl e, st))"

definition bnd :: "('w, 'a) action \<Rightarrow> ('a \<Rightarrow> ('w, 'b) action) \<Rightarrow> ('w, 'b) action" where
  "bnd m f = (\<lambda>st. case m st of (Inl e, st') \<Rightarrow> (Inl e, st') | (Inr a, st') \<Rightarrow> f a st')"

definition seq :: "('w, 'a) action \<Rightarrow> ('w, 'b) action \<Rightarrow> ('w, 'b) action" where
  "seq m n = bnd m (\<lambda>_. n)"

definition whenx :: "bool \<Rightarrow> ('w, unit) action \<Rightarrow> ('w, unit) action" where
  "whenx b m = (if b then m else ret ())"

text \<open>An action that depends on the builder's current state.\<close>

definition reading :: "('w builder \<Rightarrow> ('w, 'a) action) \<Rightarrow> ('w, 'a) action" where
  "reading f = (\<lambda>st. f st st)"

text \<open>\<^verbatim>\<open>try: m except CatalystError: h\<close>, and the bare \<^verbatim>\<open>except:\<close>.\<close>

definition try_catalyst :: "('w, 'a) action \<Rightarrow> ('w, 'a) action \<Rightarrow> ('w, 'a) action" where
  "try_catalyst m h =
     (\<lambda>st. case m st of (Inl (CatalystError msg), st') \<Rightarrow> h st' | r \<Rightarrow> r)"

definition try_any :: "('w, 'a) action \<Rightarrow> (exn \<Rightarrow> ('w, 'a) action) \<Rightarrow> ('w, 'a) action" where
  "try_any m h = (\<lambda>st. case m st of (Inl e, st') \<Rightarrow> h e st' | r \<Rightarrow> r)"

text \<open>A \<^verbatim>\<open>for\<close> loop over a list, with and without a variable carried along.\<close>

primrec foldm :: "'a list \<Rightarrow> 'b \<Rightarrow> ('a \<Rightarrow> 'b \<Rightarrow> ('w, 'b) action) \<Rightarrow> ('w, 'b) action" where
  "foldm [] acc f = ret acc"
| "foldm (x # xs) acc f = bnd (f x acc) (\<lambda>acc'. foldm xs acc' f)"

primrec foreach :: "'a list \<Rightarrow> ('a \<Rightarrow> ('w, unit) action) \<Rightarrow> ('w, unit) action" where
  "foreach [] f = ret ()"
| "foreach (x # xs) f = seq (f x) (foreach xs f)"

definition log :: "level \<Rightarrow> string \<Rightarrow> ('w, unit) action" where
  "log lvl msg = (\<lambda>st. (Inr (), st\<lparr>trace := trace st @ [Log lvl msg]\<rparr>))"

definition perform :: "'w host \<Rightarrow> event \<Rightarrow> ('w, bool) action" where
  "perform H ev =
     (\<lambda>st. case run_op H ev (world st) of
             (r, w') \<Rightarrow> (r, st\<lparr>world := w', trace := trace st @ [ev]\<rparr>))"

definition do_op :: "'w host \<Rightarrow> event \<Rightarrow> ('w, unit) action" where
  "do_op H ev = bnd (perform H ev) (\<lambda>_. ret ())"

text \<open>
  Modelled from the spec: \<^verbatim>\<open>support.cmd\<close>, which is not among the sources. The spec has
  the external command run as a child process whose exit code is the only signal, a
  non-zero exit being a failure; and it has \<^verbatim>\<open>bind\<close>, which passes \<^verbatim>\<open>fail_func=self.unbind\<close>,
  invoke the unmount of everything before the error surfaces. So a non-zero exit runs
  \<open>fail_func\<close>, when there is one, and then raises \<^verbatim>\<open>CatalystError\<close>.
\<close>

definition cmd_failed :: "string list \<Rightarrow> exn" where
  "cmd_failed argv = CatalystError (''cmd('' @ str_join '', '' argv @ '') exited non-zero'')"

definition cmd :: "'w host \<Rightarrow> string list \<Rightarrow> ('w, unit) action option \<Rightarrow> ('w, unit) action" where
  "cmd H argv fail_func =
     (\<lambda>st. case run_proc H argv (world st) of
             (ok, w') \<Rightarrow>
               (let st' = st\<lparr>world := w', trace := trace st @ [Proc argv]\<rparr>
                in if ok then (Inr (), st')
                   else (case fail_func of
                           None \<Rightarrow> (Inl (cmd_failed argv), st')
                         | Some f \<Rightarrow> seq f (raise (cmd_failed argv)) st')))"

section \<open>Mounting and unmounting\<close>

text \<open>
  \<^verbatim>\<open>setup_environment\<close> only rewrites the environment dictionary of the child processes,
  which the model does not keep.
\<close>

definition setup_environment :: "('w, unit) action" where
  "setup_environment = ret ()"

definition kill_chroot_pids :: "'w host \<Rightarrow> ('w, unit) action" where
  "kill_chroot_pids H =
     seq setup_environment
       (reading (\<lambda>st.
          let killcmd = normpath H (sharedir (settings st) @ shdir (settings st)
                                    @ ''/support/kill-chroot-pids.sh'')
          in whenx (path_exists H (world st) killcmd) (cmd H [killcmd] None)))"

text \<open>The target of a mount name: \<^verbatim>\<open>self.target_mounts[x]\<close> raises \<^verbatim>\<open>KeyError\<close> on a name
  the table lacks.\<close>

definition mount_target :: "'w host \<Rightarrow> string \<Rightarrow> string \<Rightarrow> ('w, string) action" where
  "mount_target H mypath x =
     reading (\<lambda>st. case target_mounts st x of
                      None \<Rightarrow> raise (KeyError x)
                    | Some t \<Rightarrow> ret (normpath H (mypath @ t)))"

definition msg_unmount_failed :: string where
  \<open>msg_unmount_failed = ''Couldn't umount one or more bind-mounts; aborting for safety.''\<close>

text \<open>The body of the loop of \<^verbatim>\<open>unbind\<close>, with the flag \<^verbatim>\<open>ouch\<close> carried along.\<close>

definition unbind_entry :: "'w host \<Rightarrow> string \<Rightarrow> string \<Rightarrow> bool \<Rightarrow> ('w, bool) action" where
  \<open>unbind_entry H mypath x ouch =
     bnd (mount_target H mypath x) (\<lambda>target. reading (\<lambda>st.
       if \<not> path_exists H (world st) target
       then seq (log Notice (target @ '' does not exist. Skipping'')) (ret ouch)
       else if \<not> ismount H (world st) target
       then seq (log Notice (target @ '' is not a mount point. Skipping'')) (ret ouch)
       else try_catalyst
              (seq (cmd H [''umount'', target] None) (ret ouch))
              (seq (log Warning (''First attempt to unmount failed: '' @ target))
              (seq (log Warning ''Killing any pids still running in the chroot'')
              (seq (kill_chroot_pids H)
                   (try_catalyst
                      (seq (cmd H [''umount'', target] None) (ret ouch))
                      (seq (log Warning (''Couldn't umount bind mount: '' @ target))
                           (ret True))))))))\<close>

definition unbind :: "'w host \<Rightarrow> ('w, unit) action" where
  "unbind H =
     reading (\<lambda>st.
       let mypath = chroot_path (settings st);
           myrevmounts = rev (mounts st)
       in bnd (foldm myrevmounts False (unbind_entry H mypath))
            (\<lambda>ouch. if ouch then raise (CatalystError msg_unmount_failed) else ret ()))"

text \<open>The body of the loop of \<^verbatim>\<open>mount_safety_check\<close>.\<close>

definition safety_check_entry :: "'w host \<Rightarrow> string \<Rightarrow> ('w, unit) action" where
  "safety_check_entry H x =
     reading (\<lambda>st0. bnd (mount_target H (chroot_path (settings st0)) x) (\<lambda>target. reading (\<lambda>st.
       if \<not> path_exists H (world st) target then ret ()
       else if ismount H (world st) target
       then try_catalyst
              (seq (log Warning (target @ '' is still mounted; performing auto-bind-umount...''))
              (seq (unbind H)
                   (reading (\<lambda>st'. if ismount H (world st') target
                                    then raise (CatalystError (''Auto-unbind failed for '' @ target))
                                    else log Notice ''Auto-unbind successful...''))))
              (raise (CatalystError (''Unable to auto-unbind '' @ target)))
       else ret ())))"

definition mount_safety_check :: "'w host \<Rightarrow> ('w, unit) action" where
  "mount_safety_check H =
     reading (\<lambda>st. if \<not> path_exists H (world st) (chroot_path (settings st)) then ret ()
                    else foreach (mounts st) (safety_check_entry H))"

text \<open>\<^verbatim>\<open>self.mountmap[x]\<close>: a missing name raises \<^verbatim>\<open>KeyError\<close>; the value \<^verbatim>\<open>None\<close> makes
  \<^verbatim>\<open>os.path.exists\<close> raise \<^verbatim>\<open>TypeError\<close>.\<close>

definition mount_source :: "string \<Rightarrow> ('w, string) action" where
  "mount_source x =
     reading (\<lambda>st. case mountmap st x of
                      None \<Rightarrow> raise (KeyError x)
                    | Some None \<Rightarrow> raise (TypeError ''stat: path should be string, not NoneType'')
                    | Some (Some src) \<Rightarrow> ret src)"

definition mount_command :: "'w host \<Rightarrow> settings \<Rightarrow> string \<Rightarrow> string \<Rightarrow> string list option" where
  "mount_command H s src target =
     (if src = ''maybe_tmpfs''
      then (case var_tmpfs_portage s of
              Some gb \<Rightarrow> Some [''mount'', ''-t'', ''tmpfs'', ''-o'', ''size='' @ gb @ ''G'', src, target]
            | None \<Rightarrow> None)
      else if src = ''tmpfs'' then Some [''mount'', ''-t'', ''tmpfs'', src, target]
      else if uname H = ''FreeBSD''
      then (if src = ''/dev'' then Some [''mount'', ''-t'', ''devfs'', ''none'', target]
            else Some [''mount_nullfs'', src, target])
      else (if src = ''shmfs''
            then Some [''mount'', ''-t'', ''tmpfs'', ''-o'', ''noexec,nosuid,nodev'', ''shm'', target]
            else Some [''mount'', ''--bind'', src, target]))"

text \<open>The body of the loop of \<^verbatim>\<open>bind\<close>.\<close>

definition bind_entry :: "'w host \<Rightarrow> string \<Rightarrow> ('w, unit) action" where
  "bind_entry H x =
     reading (\<lambda>st0. bnd (mount_target H (chroot_path (settings st0)) x) (\<lambda>target.
       seq (do_op H (EnsureDirs target))
      (bnd (mount_source x) (\<lambda>src.
       seq (reading (\<lambda>st. whenx (\<not> path_exists H (world st) src
                                  \<and> src \<notin> {''maybe_tmpfs'', ''tmpfs'', ''shmfs''})
                             (do_op H (EnsureDirs src))))
           (reading (\<lambda>st. case mount_command H (settings st) src target of
                            None \<Rightarrow> ret ()
                          | Some c \<Rightarrow> cmd H c (Some (unbind H))))))))"

definition bind :: "'w host \<Rightarrow> ('w, unit) action" where
  "bind H = reading (\<lambda>st. foreach (mounts st) (bind_entry H))"

section \<open>The stages\<close>

subsection \<open>Strings and paths of the Python library\<close>

definition rstrip :: "char \<Rightarrow> string \<Rightarrow> string" where
  "rstrip c s = rev (dropWhile (\<lambda>x. x = c) (rev s))"

definition replace_newlines :: "string \<Rightarrow> string" where
  "replace_newlines s = map (\<lambda>c. if c = CHR 0x0A then CHR '' '' else c) s"

text \<open>\<^verbatim>\<open>os.path.join\<close> of two components and \<^verbatim>\<open>os.path.dirname\<close> (POSIX).\<close>

definition path_join :: "string \<Rightarrow> string \<Rightarrow> string" where
  "path_join a b =
     (if b \<noteq> [] \<and> hd b = CHR ''/'' then b
      else if a = [] \<or> last a = CHR ''/'' then a @ b
      else a @ ''/'' @ b)"

definition dirname :: "string \<Rightarrow> string" where
  "dirname p =
     (let head = take (length p - length (takeWhile (\<lambda>c. c \<noteq> CHR ''/'') (rev p))) p
      in if head \<noteq> [] \<and> head \<noteq> replicate (length head) (CHR ''/'')
         then rstrip (CHR ''/'') head else head)"

subsection \<open>Resume points and cleaning\<close>

definition resume_enable :: "string \<Rightarrow> string option \<Rightarrow> ('w, unit) action" where
  "resume_enable p data = (\<lambda>st. (Inr (), st\<lparr>resume := enable p data (resume st)\<rparr>))"

definition resume_clear_all :: "bool \<Rightarrow> ('w, unit) action" where
  "resume_clear_all remove = (\<lambda>st. (Inr (), st\<lparr>resume := clear_all remove (resume st)\<rparr>))"

text \<open>The test \<^verbatim>\<open>"autoresume" in self.settings["options"] and self.resume.is_enabled(p)\<close>.\<close>

definition resume_point_detected :: "'w builder \<Rightarrow> string \<Rightarrow> bool" where
  "resume_point_detected st p =
     (''autoresume'' \<in> set (options (settings st)) \<and> is_enabled (resume st) p)"

definition clear_autoresume :: "('w, unit) action" where
  "clear_autoresume =
     reading (\<lambda>st. whenx (''autoresume'' \<in> set (options (settings st))) (resume_clear_all False))"

definition remove_autoresume :: "('w, unit) action" where
  "remove_autoresume =
     reading (\<lambda>st. whenx (''autoresume'' \<in> set (options (settings st))) (resume_clear_all True))"

definition clear_chroot :: "'w host \<Rightarrow> ('w, unit) action" where
  "clear_chroot H = reading (\<lambda>st. do_op H (ClearDir (chroot_path (settings st)) False))"

definition remove_chroot :: "'w host \<Rightarrow> ('w, unit) action" where
  "remove_chroot H = reading (\<lambda>st. do_op H (ClearDir (chroot_path (settings st)) True))"

definition clear_packages :: "'w host \<Rightarrow> bool \<Rightarrow> ('w, unit) action" where
  "clear_packages H remove =
     reading (\<lambda>st. whenx (''pkgcache'' \<in> set (options (settings st)))
                     (do_op H (ClearDir (pkgcache_path (settings st)) remove)))"

definition clear_kerncache :: "'w host \<Rightarrow> bool \<Rightarrow> ('w, unit) action" where
  "clear_kerncache H remove =
     reading (\<lambda>st. whenx (''kerncache'' \<in> set (options (settings st)))
                     (do_op H (ClearDir (kerncache_path (settings st)) remove)))"

text \<open>\<^verbatim>\<open>purge\<close> begins with a call of \<^verbatim>\<open>countdown\<close>, a name the module neither defines nor
  imports: the call raises \<^verbatim>\<open>NameError\<close>.\<close>

definition countdown :: "('w, unit) action" where
  \<open>countdown = raise (NameError ''name 'countdown' is not defined'')\<close>

definition purge :: "'w host \<Rightarrow> bool \<Rightarrow> ('w, unit) action" where
  "purge H remove =
     seq countdown
       (reading (\<lambda>st.
          whenx (\<exists>k \<in> {''purge'', ''purgeonly'', ''purgetmponly''}. k \<in> set (options (settings st)))
            (seq clear_autoresume
            (seq (clear_chroot H)
            (seq (whenx (''purgetmponly'' \<notin> set (options (settings st))) (clear_packages H remove))
                 (clear_kerncache H remove))))))"

subsection \<open>Unpacking the seed and the snapshot\<close>

definition fmt_mode :: "string option \<Rightarrow> string" where
  "fmt_mode m = (case m of None \<Rightarrow> ''None'' | Some x \<Rightarrow> x)"

definition do_file_check :: "'w host \<Rightarrow> string \<Rightarrow> ('w, string) action" where
  "do_file_check H p = (\<lambda>st. (file_check H (world st) p, st))"

text \<open>The first part of \<^verbatim>\<open>unpack\<close> settles source and mode of the extraction. Of the
  dictionary \<^verbatim>\<open>unpack_info\<close> the model keeps source, destination and mode.\<close>

definition unpack_info_source :: "'w host \<Rightarrow> ('w, string \<times> string option) action" where
  "unpack_info_source H =
     reading (\<lambda>st. let src = source_path (settings st) in
        if ''seedcache'' \<in> set (options (settings st))
        then (if path_isdir H (world st) src then ret (src, Some ''rsync'')
              else bnd (do_file_check H src) (\<lambda>src'. ret (src', None)))
        else bnd (do_file_check H src) (\<lambda>src'. ret (src', None)))"

text \<open>The resume validation: it yields the source and the two flags \<^verbatim>\<open>_unpack\<close> and
  \<^verbatim>\<open>invalid_chroot\<close>.\<close>

definition unpack_validate ::
    "'w host \<Rightarrow> string option \<Rightarrow> string \<Rightarrow> ('w, string \<times> bool \<times> bool) action" where
  \<open>unpack_validate H clst_unpack_hash src =
     reading (\<lambda>st.
        if ''autoresume'' \<in> set (options (settings st))
        then
          (let (u1, inv1) =
                 (if path_isdir H (world st) (chroot_path (settings st))
                     \<and> is_enabled (resume st) ''unpack''
                  then (False, False) else (True, True))
           in if path_isfile H (world st) (source_path (settings st)) \<and> \<not> inv1
              then (case source_path_hash (settings st) of
                      None \<Rightarrow> raise (KeyError ''source_path_hash'')
                    | Some h \<Rightarrow>
                        if Some (replace_newlines h) = clst_unpack_hash
                        then ret (src, False, False)
                        else bnd (do_file_check H src) (\<lambda>src'. ret (src', True, True)))
              else ret (src, u1, inv1))
        else
          (if ''seedcache'' \<in> set (options (settings st)) then ret (src, True, True)
           else if path_isdir H (world st) (source_path (settings st))
           then raise (CatalystError (''source path is a dir but seedcache is not enabled: ''
                                       @ source_path (settings st)))
           else ret (src, True, True)))\<close>

text \<open>The extraction proper, once \<^verbatim>\<open>_unpack\<close> is set.\<close>

definition unpack_extract :: "'w host \<Rightarrow> string \<Rightarrow> string option \<Rightarrow> bool \<Rightarrow> ('w, unit) action" where
  \<open>unpack_extract H src mode invalid_chroot =
     seq (mount_safety_check H)
    (seq (whenx invalid_chroot (seq clear_autoresume (clear_chroot H)))
    (reading (\<lambda>st.
       seq (do_op H (EnsureDirs (chroot_path (settings st))))
      (seq (do_op H (EnsureDirs (chroot_path (settings st) @ ''/tmp'')))
      (seq (whenx (''pkgcache'' \<in> set (options (settings st)))
              (do_op H (EnsureDirs (pkgcache_path (settings st)))))
      (seq (whenx (''kerncache'' \<in> set (options (settings st)))
              (do_op H (EnsureDirs (kerncache_path (settings st)))))
      (seq (bnd (perform H (Extract src (chroot_path (settings st)) mode))
             (\<lambda>ok. whenx (\<not> ok)
                (log Error ([CHR 0x27] @ fmt_mode mode @ [CHR 0x27] @ '' extraction of ''
                             @ src @ '' to '' @ chroot_path (settings st) @ '' failed.''))))
           (resume_enable ''unpack'' (source_path_hash (settings st))))))))))\<close>

definition unpack :: "'w host \<Rightarrow> ('w, unit) action" where
  \<open>unpack H =
     reading (\<lambda>st0.
        let clst_unpack_hash = get_data (resume st0) ''unpack'' in
        bnd (unpack_info_source H) (\<lambda>(src0, mode).
        bnd (unpack_validate H clst_unpack_hash src0) (\<lambda>(src, u, invalid_chroot).
          if u then unpack_extract H src mode invalid_chroot else ret ())))\<close>

definition unpack_snapshot :: "'w host \<Rightarrow> ('w, unit) action" where
  \<open>unpack_snapshot H =
     reading (\<lambda>st.
        let s = settings st;
            snapshot_hash = get_data (resume st) ''unpack_repo'';
            target_portdir = normpath H (chroot_path s @ repo_basedir s @ ''/'' @ repo_name s);
            snapcache = (''snapcache'' \<in> set (options s));
            snapshot_cache_hash_path = path_join (snapshot_cache_path s) ''catalyst-hash'';
            destination = (if snapcache then snapshot_cache_path s
                           else normpath H (chroot_path s @ repo_basedir s));
            mode = determine_mode H (world st) (snapshot_path s);
            unpack =
              (if snapcache
               then \<not> (Some (snapshot_path_hash s) = readfile H (world st) snapshot_cache_hash_path)
               else \<not> (''autoresume'' \<in> set (options s)
                        \<and> path_exists H (world st) target_portdir
                        \<and> is_enabled (resume st) ''unpack_repo''
                        \<and> Some (snapshot_path_hash s) = snapshot_hash))
        in whenx unpack
             (seq (do_op H (ClearDir target_portdir False))
             (seq (bnd (perform H (Extract (snapshot_path s) destination (Some mode)))
                    (\<lambda>ok. whenx (\<not> ok) (log Error (''Error unpacking snapshot using mode '' @ mode))))
                  (if snapcache
                   then do_op H (WriteFile snapshot_cache_hash_path (snapshot_path_hash s))
                   else resume_enable ''unpack_repo'' (Some (snapshot_path_hash s))))))\<close>

subsection \<open>Configuration of the chroot\<close>

definition setup_confdir :: "'w host \<Rightarrow> ('w, unit) action" where
  "setup_confdir H =
     reading (\<lambda>st.
       if resume_point_detected st ''setup_confdir'' then ret ()
       else (case portage_confdir (settings st) of
               None \<Rightarrow> ret ()
             | Some confdir \<Rightarrow>
                 (let dest = normpath H (chroot_path (settings st) @ ''/'' @ port_conf (settings st))
                  in seq (do_op H (EnsureDirs dest))
                    (seq (cmd H [''rsync'', ''-a'', confdir @ ''/'', dest @ ''/''] None)
                         (resume_enable ''setup_confdir'' None)))))"

text \<open>A command given to \<^verbatim>\<open>cmd\<close> as one string is run through the shell.\<close>

definition cmd_shell :: "'w host \<Rightarrow> string \<Rightarrow> ('w, unit) action" where
  "cmd_shell H c = cmd H [''bash'', ''-c'', c] None"

definition portage_overlay_stage :: "'w host \<Rightarrow> ('w, unit) action" where
  "portage_overlay_stage H =
     reading (\<lambda>st.
       case portage_overlay (settings st) of
         None \<Rightarrow> ret ()
       | Some overlays \<Rightarrow>
           foreach overlays (\<lambda>x. reading (\<lambda>st'.
             whenx (path_exists H (world st') x)
               (seq (do_op H (EnsureDirs (chroot_path (settings st') @ local_overlay (settings st'))))
                    (cmd_shell H (''cp -a '' @ x @ ''/* '' @ chroot_path (settings st')
                                   @ local_overlay (settings st')))))))"

definition base_dirs :: "('w, unit) action" where
  "base_dirs = ret ()"

text \<open>\<^verbatim>\<open>write_make_conf\<close> clears the file and writes it anew; what it writes is not modelled,
  the write is one event.\<close>

definition write_make_conf :: "'w host \<Rightarrow> bool \<Rightarrow> ('w, unit) action" where
  "write_make_conf H setup =
     reading (\<lambda>st.
       let makepath = normpath H (chroot_path (settings st) @ make_conf (settings st))
       in seq (do_op H (ClearPath makepath)) (do_op H (WriteMakeConf makepath setup)))"

definition makeconf_keys :: "string list" where
  "makeconf_keys = [''CBUILD'', ''CHOST'', ''CFLAGS'', ''CXXFLAGS'', ''FCFLAGS'', ''FFLAGS'',
                    ''LDFLAGS'', ''ASFLAGS'', ''COMMON_FLAGS'']"

definition copy_makeconf_keys :: "(string \<times> string) list \<Rightarrow> settings \<Rightarrow> settings" where
  "copy_makeconf_keys makeconf s =
     s\<lparr>extra := fold (\<lambda>k ex. case map_of makeconf k of
                                None \<Rightarrow> ex
                              | Some v \<Rightarrow> ex(k \<mapsto> Str v)) makeconf_keys (extra s)\<rparr>"

definition read_chroot_makeconf :: "'w host \<Rightarrow> ('w, unit) action" where
  "read_chroot_makeconf H =
     (\<lambda>st. let makeconf = read_makeconf H (world st)
                             (normpath H (chroot_path (settings st) @ make_conf (settings st)))
            in (Inr (), st\<lparr>settings := copy_makeconf_keys makeconf (settings st)\<rparr>))"

definition interpreters :: "settings \<Rightarrow> string list" where
  "interpreters s = (case interpreter s of None \<Rightarrow> [] | Some (Str i) \<Rightarrow> [i] | Some (Lst ints) \<Rightarrow> ints)"

definition chroot_setup :: "'w host \<Rightarrow> ('w, unit) action" where
  \<open>chroot_setup H =
     seq (read_chroot_makeconf H)
       (reading (\<lambda>st.
          let chroot = chroot_path (settings st);
              hosts_file = chroot @ ''/etc/hosts''
          in if resume_point_detected st ''chroot_setup'' then ret ()
             else
               seq (do_op H (CopyFile ''/etc/resolv.conf'' (chroot @ ''/etc/'')))
              (seq (foreach (interpreters (settings st)) (\<lambda>myi. reading (\<lambda>st'.
                      if \<not> path_exists H (world st') myi
                      then raise (CatalystError (''Can't find interpreter '' @ myi))
                      else seq (whenx (path_exists H (world st') (chroot @ ''/'' @ myi))
                                  (do_op H (Rename (chroot @ ''/'' @ myi)
                                                   (chroot @ ''/'' @ myi @ ''.catalyst''))))
                               (do_op H (CopyFile myi (chroot @ ''/'' @ myi))))))
              (seq (reading (\<lambda>st'. whenx (path_exists H (world st') hosts_file)
                              (seq (do_op H (Rename hosts_file (hosts_file @ ''.catalyst'')))
                                   (do_op H (CopyFile ''/etc/hosts'' hosts_file)))))
              (seq (try_any (write_make_conf H True)
                      (\<lambda>e. case e of
                              OSError msg \<Rightarrow>
                                raise (CatalystError (''Could not write ''
                                         @ normpath H (chroot @ make_conf (settings st)) @ '': '' @ msg))
                            | _ \<Rightarrow> raise e))
                   (resume_enable ''chroot_setup'' None))))))\<close>

subsection \<open>Running the controller script\<close>

definition run_local :: "'w host \<Rightarrow> ('w, unit) action" where
  "run_local H =
     reading (\<lambda>st.
       if resume_point_detected st ''run_local'' then ret ()
       else try_catalyst
              (reading (\<lambda>st'. whenx (path_exists H (world st') (controller_file (settings st')))
                                (seq (cmd H [controller_file (settings st'), ''run''] None)
                                     (resume_enable ''run_local'' None))))
              (seq (unbind H) (raise (CatalystError ''Stage build aborting due to error.''))))"

definition preclean :: "'w host \<Rightarrow> ('w, unit) action" where
  "preclean H =
     reading (\<lambda>st.
       if resume_point_detected st ''preclean'' then ret ()
       else try_any
              (reading (\<lambda>st'. whenx (path_exists H (world st') (controller_file (settings st')))
                                (seq (cmd H [controller_file (settings st'), ''preclean''] None)
                                     (resume_enable ''preclean'' None))))
              (\<lambda>e. seq (unbind H)
                        (raise (CatalystError ''Build failed, could not execute preclean''))))"

definition portage_config_dirs :: "string list" where
  "portage_config_dirs = [''package.accept_keywords'', ''package.keywords'', ''package.mask'',
                          ''package.unmask'', ''package.use'', ''package.env'', ''env'']"

definition clean :: "'w host \<Rightarrow> ('w, unit) action" where
  \<open>clean H =
     reading (\<lambda>st0.
        let s = settings st0;
            chroot = chroot_path s;
            hosts_file = chroot @ ''/etc/hosts'';
            patches = path_join (destpath s) ''etc/portage/patches'';
            overlay = normpath H (chroot @ local_overlay s)
        in
          seq (whenx (\<not> resume_point_detected st0 ''clean'')
                 (foreach (cleanables s) (\<lambda>x. do_op H (ClearPath (normpath H (destpath s @ x))))))
         (seq (reading (\<lambda>st. whenx (path_exists H (world st) (hosts_file @ ''.catalyst''))
                         (do_op H (Rename (hosts_file @ ''.catalyst'') hosts_file))))
         (seq (foreach (interpreters s) (\<lambda>myi. reading (\<lambda>st.
                 if path_exists H (world st) (chroot @ ''/'' @ myi @ ''.catalyst'')
                 then do_op H (Rename (chroot @ ''/'' @ myi @ ''.catalyst'') (chroot @ ''/'' @ myi))
                 else do_op H (Remove (chroot @ ''/'' @ myi)))))
         (seq (case portage_prefix s of
                 Some pfx \<Rightarrow>
                   whenx (''sticky-config'' \<notin> set (options s))
                     (foreach portage_config_dirs (\<lambda>d.
                        do_op H (ClearPath (path_join (path_join (destpath s) (''etc/portage/'' @ d)) pfx))))
               | None \<Rightarrow> ret ())
         (seq (reading (\<lambda>st. whenx (path_exists H (world st) patches)
                         (seq (log Warning (''You've been hacking. Clearing target patches: '' @ patches))
                              (do_op H (ClearPath patches)))))
         (seq (reading (\<lambda>st. whenx (path_exists H (world st) overlay) (do_op H (ClearPath overlay))))
         (seq (whenx (''sticky-config'' \<notin> set (options s)) (write_make_conf H False))
         (seq (reading (\<lambda>st. whenx (path_exists H (world st) (stage_path s @ ''/etc''))
                         (cmd H [''find'', stage_path s @ ''/etc'', ''-maxdepth'', ''1'', ''-name'',
                                 ''*-'', ''-delete''] None)))
              (reading (\<lambda>st. whenx (path_exists H (world st) (controller_file s))
                         (seq (cmd H [controller_file s, ''clean''] None)
                              (resume_enable ''clean'' None))))))))))))\<close>

subsection \<open>Capturing the result\<close>

text \<open>\<^verbatim>\<open>gen_contents_file\<close> and \<^verbatim>\<open>gen_digest_file\<close> use the modules \<^verbatim>\<open>gzip\<close> and \<^verbatim>\<open>io\<close>,
  which the module does not import: where they reach that line they raise \<^verbatim>\<open>NameError\<close>.\<close>

definition gen_contents_file :: "'w host \<Rightarrow> string \<Rightarrow> ('w, unit) action" where
  \<open>gen_contents_file H path =
     (let contents_path = path @ ''.CONTENTS.gz'' in
      seq (reading (\<lambda>st. whenx (path_exists H (world st) contents_path) (do_op H (Remove contents_path))))
          (reading (\<lambda>st. case contents (settings st) of
                  None \<Rightarrow> ret ()
                | Some c \<Rightarrow>
                    if \<not> contents_map_set (settings st) then raise (KeyError ''contents_map'')
                    else if path_exists H (world st) path
                    then raise (NameError ''name 'gzip' is not defined'')
                    else ret ())))\<close>

definition gen_digest_file :: "'w host \<Rightarrow> string \<Rightarrow> ('w, unit) action" where
  \<open>gen_digest_file H path =
     (let digests_path = path @ ''.DIGESTS'' in
      seq (reading (\<lambda>st. whenx (path_exists H (world st) digests_path) (do_op H (Remove digests_path))))
          (reading (\<lambda>st. case digests (settings st) of
                  None \<Rightarrow> ret ()
                | Some d \<Rightarrow>
                    if \<not> hash_map_set (settings st) then raise (KeyError ''hash_map'')
                    else if path_exists H (world st) path
                    then raise (NameError ''name 'io' is not defined'')
                    else ret ())))\<close>

definition capture :: "'w host \<Rightarrow> ('w, unit) action" where
  \<open>capture H =
     reading (\<lambda>st.
       if resume_point_detected st ''capture'' then ret ()
       else
         (let s = settings st;
              mypath = dirname (rstrip (CHR ''/'') (target_path s));
              target_filename = rstrip (CHR ''/'') (target_path s) @ ''.''
                                  @ extension H (compression_mode s)
          in seq (do_op H (EnsureDirs mypath))
            (bnd (perform H (Compress (stage_path s) (rstrip (CHR ''/'') (target_path s))
                                      (compression_mode s)))
               (\<lambda>ok. if ok
                      then seq (gen_contents_file H target_filename)
                          (seq (gen_digest_file H target_filename)
                               (resume_enable ''capture'' None))
                      else log Warning (''Couldn't create stage tarball: '' @ target_filename)))))\<close>

section \<open>The pipeline\<close>

text \<open>
  \<^verbatim>\<open>getattr(self, x)()\<close> for the names that a computed action sequence can hold; the
  model has no other method under a name, so any other name raises \<^verbatim>\<open>AttributeError\<close>.
\<close>

definition stage_method :: "'w host \<Rightarrow> string \<Rightarrow> ('w, unit) action option" where
  "stage_method H x =
     (if x = ''unpack'' then Some (unpack H)
      else if x = ''unpack_snapshot'' then Some (unpack_snapshot H)
      else if x = ''setup_confdir'' then Some (setup_confdir H)
      else if x = ''portage_overlay'' then Some (portage_overlay_stage H)
      else if x = ''base_dirs'' then Some base_dirs
      else if x = ''bind'' then Some (bind H)
      else if x = ''chroot_setup'' then Some (chroot_setup H)
      else if x = ''setup_environment'' then Some setup_environment
      else if x = ''run_local'' then Some (run_local H)
      else if x = ''preclean'' then Some (preclean H)
      else if x = ''unbind'' then Some (unbind H)
      else if x = ''clean'' then Some (clean H)
      else if x = ''capture'' then Some (capture H)
      else if x = ''clear_autoresume'' then Some clear_autoresume
      else if x = ''remove_autoresume'' then Some remove_autoresume
      else if x = ''remove_chroot'' then Some (remove_chroot H)
      else None)"

definition getattr_call :: "'w host \<Rightarrow> string \<Rightarrow> ('w, unit) action" where
  "getattr_call H x = (case stage_method H x of Some m \<Rightarrow> m | None \<Rightarrow> raise (AttributeError x))"

text \<open>
  The loop of \<^verbatim>\<open>_run\<close> over the action sequence: the result is the flag \<^verbatim>\<open>failure\<close>. The
  loop takes the call of a stage as a parameter \<open>D\<close>; the builder's own is \<open>getattr_call\<close>.
\<close>

primrec run_actions :: "(string \<Rightarrow> ('w, unit) action) \<Rightarrow> string list \<Rightarrow> ('w, bool) action" where
  "run_actions D [] = ret False"
| "run_actions D (x # xs) =
     (\<lambda>st. case D x st of
             (Inr _, st') \<Rightarrow> run_actions D xs st'
           | (Inl e, st') \<Rightarrow>
               seq (log Error (''Exception running action sequence '' @ x)) (ret True) st')"

text \<open>
  \<^verbatim>\<open>_run\<close> in three parts. What comes before the loop yields whether \<^verbatim>\<open>_run\<close> returns at
  once (the bare \<^verbatim>\<open>return\<close> under \<^verbatim>\<open>purgetmponly\<close>); then the loop and what follows it. The
  result of \<^verbatim>\<open>_run\<close> is \<open>None\<close> for the bare \<^verbatim>\<open>return\<close>, else the boolean returned.
\<close>

definition run_prologue :: "'w host \<Rightarrow> ('w, bool) action" where
  "run_prologue H =
     seq (kill_chroot_pids H)
    (seq (mount_safety_check H)
    (seq (reading (\<lambda>st. whenx (''clear-autoresume'' \<in> set (options (settings st))) clear_autoresume))
    (reading (\<lambda>st.
       if ''purgetmponly'' \<in> set (options (settings st))
       then seq (purge H False) (ret True)
       else
         seq (whenx (''purgeonly'' \<in> set (options (settings st))) (purge H False))
        (seq (whenx (''purge'' \<in> set (options (settings st))) (purge H False))
             (ret False))))))"

definition run_sequence :: "'w host \<Rightarrow> (string \<Rightarrow> ('w, unit) action) \<Rightarrow> ('w, bool option) action" where
  "run_sequence H D =
     reading (\<lambda>st. bnd (run_actions D (action_sequence (settings st)))
                (\<lambda>failure. if failure then seq (unbind H) (ret (Some False))
                            else ret (Some True)))"

definition priv_run :: "'w host \<Rightarrow> (string \<Rightarrow> ('w, unit) action) \<Rightarrow> ('w, bool option) action" where
  "priv_run H D =
     bnd (run_prologue H) (\<lambda>returns. if returns then ret None else run_sequence H D)"

definition run :: "'w host \<Rightarrow> ('w, bool option) action" where
  "run H = priv_run H (getattr_call H)"

section \<open>Building kernels\<close>

text \<open>A settings value used as a path: a list where \<^verbatim>\<open>os.path.exists\<close> wants a string
  raises \<^verbatim>\<open>TypeError\<close>.\<close>

definition path_value :: "pyval \<Rightarrow> ('w, string) action" where
  "path_value v = (case v of Str p \<Rightarrow> ret p
                   | Lst _ \<Rightarrow> raise (TypeError ''stat: path should be string, not list''))"

definition priv_copy_kernel_config :: "'w host \<Rightarrow> string \<Rightarrow> ('w, unit) action" where
  \<open>priv_copy_kernel_config H kname =
     reading (\<lambda>st.
       case extra (settings st) (''boot/kernel/'' @ kname @ ''/config'') of
         None \<Rightarrow> ret ()
       | Some v \<Rightarrow>
           bnd (path_value v) (\<lambda>cfg. reading (\<lambda>st'.
             if \<not> path_exists H (world st') cfg
             then seq (unbind H) (raise (CatalystError (''Can't find kernel config: '' @ cfg)))
             else try_any
                    (do_op H (CopyFile cfg (chroot_path (settings st') @ ''/var/tmp/''
                                            @ kname @ ''.config'')))
                    (\<lambda>e. case e of OSError _ \<Rightarrow> unbind H | _ \<Rightarrow> raise e))))\<close>

definition priv_copy_initramfs_overlay :: "'w host \<Rightarrow> string \<Rightarrow> ('w, unit) action" where
  \<open>priv_copy_initramfs_overlay H kname =
     reading (\<lambda>st.
       case extra (settings st) (''boot/kernel/'' @ kname @ ''/initramfs_overlay'') of
         None \<Rightarrow> ret ()
       | Some v \<Rightarrow>
           bnd (path_value v) (\<lambda>ov. reading (\<lambda>st'.
             whenx (path_exists H (world st') ov)
               (seq (do_op H (EnsureDirs (chroot_path (settings st')
                                          @ ''/tmp/initramfs_overlay/'' @ ov)))
                    (cmd_shell H (''cp -R '' @ ov @ ''/* '' @ chroot_path (settings st')
                                   @ ''/tmp/initramfs_overlay/'' @ ov))))))\<close>

text \<open>\<^verbatim>\<open>self.settings.setdefault(key, '')\<close>.\<close>

definition setdefault_extra :: "string \<Rightarrow> pyval \<Rightarrow> ('w, unit) action" where
  "setdefault_extra key v =
     (\<lambda>st. case extra (settings st) key of
             Some _ \<Rightarrow> (Inr (), st)
           | None \<Rightarrow> (Inr (), st\<lparr>settings := (settings st)\<lparr>extra := (extra (settings st))(key \<mapsto> v)\<rparr>\<rparr>))"

text \<open>\<^verbatim>\<open>_build_kernel\<close>. Its statement \<^verbatim>\<open>self.resume.is_enabled("build_kernel_" + kname)\<close>
  after the kernel script is a query whose result is dropped; the kernel options only
  go to the environment of the child processes.\<close>

definition resume_query :: "string \<Rightarrow> ('w, bool) action" where
  "resume_query p = reading (\<lambda>st. ret (is_enabled (resume st) p))"

definition priv_build_kernel :: "'w host \<Rightarrow> string \<Rightarrow> ('w, unit) action" where
  \<open>priv_build_kernel H kname =
     reading (\<lambda>st.
       if resume_point_detected st (''build_kernel_'' @ kname) then ret ()
       else
         seq (priv_copy_kernel_config H kname)
        (seq (setdefault_extra (''boot/kernel/'' @ kname @ ''/extraversion'') (Str ''''))
        (seq (priv_copy_initramfs_overlay H kname)
        (seq (reading (\<lambda>st'. cmd H [controller_file (settings st'), ''kernel'', kname] None))
        (seq (reading (\<lambda>st'.
                whenx (extra (settings st') (''boot/kernel/'' @ kname @ ''/initramfs_overlay'') \<noteq> None)
                  (do_op H (ClearDir (chroot_path (settings st') @ ''/tmp/initramfs_overlay/'') False))))
        (seq (resume_query (''build_kernel_'' @ kname))
             (reading (\<lambda>st'. cmd H [controller_file (settings st'), ''post-kmerge''] None))))))))\<close>

definition build_kernel :: "'w host \<Rightarrow> ('w, unit) action" where
  \<open>build_kernel H =
     reading (\<lambda>st.
       if resume_point_detected st ''build_kernel'' then ret ()
       else (case extra (settings st) ''boot/kernel'' of
               None \<Rightarrow> ret ()
             | Some v \<Rightarrow>
                 try_catalyst
                   (let mynames = (case v of Str n \<Rightarrow> [n] | Lst ns \<Rightarrow> ns)
                    in seq (reading (\<lambda>st'. cmd H [controller_file (settings st'), ''pre-kmerge''] None))
                      (seq (foreach mynames (priv_build_kernel H))
                           (resume_enable ''build_kernel'' None)))
                   (seq (unbind H)
                        (raise (CatalystError ''build aborting due to kernel build error.'')))))\<close>

section \<open>Notions used in the statements\<close>

text \<open>
  An action preserves a relation between the state before and the state after, whatever
  its outcome; or it does so at least when it raises.
\<close>

definition pres :: "('w builder \<Rightarrow> 'w builder \<Rightarrow> bool) \<Rightarrow> ('w, 'a) action \<Rightarrow> bool" where
  "pres R m = (\<forall>st. R st (snd (m st)))"

definition err_pres :: "('w builder \<Rightarrow> 'w builder \<Rightarrow> bool) \<Rightarrow> ('w, 'a) action \<Rightarrow> bool" where
  "err_pres R m = (\<forall>st e st'. m st = (Inl e, st') \<longrightarrow> R st st')"

text \<open>The relations that every step on the host respects: they are reflexive and
  transitive, and hold when only the host's state changes and the trace grows.\<close>

definition frame_rel :: "('w builder \<Rightarrow> 'w builder \<Rightarrow> bool) \<Rightarrow> bool" where
  "frame_rel R = ((\<forall>s. R s s) \<and> (\<forall>a b c. R a b \<longrightarrow> R b c \<longrightarrow> R a c)
                  \<and> (\<forall>st w evs. R st (st\<lparr>world := w, trace := trace st @ evs\<rparr>)))"

definition same :: "('w builder \<Rightarrow> 'x) \<Rightarrow> 'w builder \<Rightarrow> 'w builder \<Rightarrow> bool" where
  "same P st st' = (P st' = P st)"

definition trace_grows :: "'w builder \<Rightarrow> 'w builder \<Rightarrow> bool" where
  "trace_grows st st' = (\<exists>evs. trace st' = trace st @ evs)"

text \<open>No resume point is added or changed; points may be cleared.\<close>

definition no_new_points :: "'w builder \<Rightarrow> 'w builder \<Rightarrow> bool" where
  "no_new_points st st' =
     (\<forall>p. points (resume st') p = None \<or> points (resume st') p = points (resume st) p)"

text \<open>The events an action has added to the trace.\<close>

definition new_events :: "'w builder \<Rightarrow> 'w builder \<Rightarrow> event list" where
  "new_events st st' = drop (length (trace st)) (trace st')"



text \<open>The path at which a mount name is mounted, and the builders whose mount names
  all have one.\<close>

definition mount_point :: "'w host \<Rightarrow> 'w builder \<Rightarrow> string \<Rightarrow> string" where
  "mount_point H st x =
     (case target_mounts st x of
        Some t \<Rightarrow> normpath H (chroot_path (settings st) @ t)
      | None \<Rightarrow> [])"

definition has_targets :: "'w builder \<Rightarrow> bool" where
  "has_targets st = (\<forall>x \<in> set (mounts st). target_mounts st x \<noteq> None)"

definition kill_command :: "'w host \<Rightarrow> 'w builder \<Rightarrow> string" where
  "kill_command H st =
     normpath H (sharedir (settings st) @ shdir (settings st) @ ''/support/kill-chroot-pids.sh'')"


text \<open>
  What \<^verbatim>\<open>unbind\<close> does with one entry: the target is absent, or not a mount point, or
  unmounted at the first attempt, or the first attempt failed and the unmount was tried
  again, after the kill script ran (first flag) and with success or not (second flag).
\<close>

datatype entry_outcome = Absent | NotMounted | Unmounted | Retried bool bool

fun entry_events :: "string \<Rightarrow> string \<Rightarrow> entry_outcome \<Rightarrow> event list" where
  \<open>entry_events k t Absent = [Log Notice (t @ '' does not exist. Skipping'')]\<close>
| \<open>entry_events k t NotMounted = [Log Notice (t @ '' is not a mount point. Skipping'')]\<close>
| \<open>entry_events k t Unmounted = [Proc [''umount'', t]]\<close>
| \<open>entry_events k t (Retried killed ok) =
     [Proc [''umount'', t],
      Log Warning (''First attempt to unmount failed: '' @ t),
      Log Warning ''Killing any pids still running in the chroot'']
     @ (if killed then [Proc [k]] else [])
     @ [Proc [''umount'', t]]
     @ (if ok then [] else [Log Warning (''Couldn't umount bind mount: '' @ t)])\<close>

fun still_mounted :: "entry_outcome \<Rightarrow> bool" where
  "still_mounted (Retried killed ok) = (\<not> ok)"
| "still_mounted _ = False"



text \<open>The target of a mount name exists and is a mount point in the builder's host state.\<close>

definition is_mounted :: "'w host \<Rightarrow> 'w builder \<Rightarrow> string \<Rightarrow> bool" where
  "is_mounted H st x =
     (path_exists H (world st) (mount_point H st x) \<and> ismount H (world st) (mount_point H st x))"

text \<open>The builder after the warning with which \<^verbatim>\<open>mount_safety_check\<close> announces its
  unmount of everything.\<close>

definition still_mounted_warned :: "'w host \<Rightarrow> 'w builder \<Rightarrow> string \<Rightarrow> 'w builder" where
  \<open>still_mounted_warned H st x =
     st\<lparr>trace := trace st
          @ [Log Warning (mount_point H st x @ '' is still mounted; performing auto-bind-umount...'')]\<rparr>\<close>

text \<open>Every mount name has a source that is a string.\<close>

definition has_sources :: "'w builder \<Rightarrow> bool" where
  "has_sources st = (\<forall>x \<in> set (mounts st). \<exists>src. mountmap st x = Some (Some src))"

text \<open>\<^verbatim>\<open>ensure_dirs\<close> does not raise on this host.\<close>

definition ensure_dirs_succeeds :: "'w host \<Rightarrow> bool" where
  "ensure_dirs_succeeds H = (\<forall>p w. \<exists>b. fst (run_op H (EnsureDirs p) w) = Inr b)"

text \<open>
  A host on which unmounting works as one expects: a mount point exists; an \<^verbatim>\<open>umount\<close>
  that exits with status zero leaves its target no mount point; and neither \<^verbatim>\<open>umount\<close>
  nor the kill script \<open>k\<close> makes a mount point of a path that was none.
\<close>

definition unmounting_host :: "'w host \<Rightarrow> string \<Rightarrow> bool" where
  "unmounting_host H k =
     ((\<forall>w t. ismount H w t \<longrightarrow> path_exists H w t)
      \<and> (\<forall>w t. fst (run_proc H [''umount'', t] w)
                 \<longrightarrow> \<not> ismount H (snd (run_proc H [''umount'', t] w)) t)
      \<and> (\<forall>w t u. \<not> ismount H w u \<longrightarrow> \<not> ismount H (snd (run_proc H [''umount'', t] w)) u)
      \<and> (\<forall>w u. \<not> ismount H w u \<longrightarrow> \<not> ismount H (snd (run_proc H [k] w)) u))"

text \<open>The builder after the error message with which \<^verbatim>\<open>_run\<close> answers a stage that
  raised.\<close>

definition failure_logged :: "string \<Rightarrow> 'w builder \<Rightarrow> 'w builder" where
  "failure_logged x st =
     st\<lparr>trace := trace st @ [Log Error (''Exception running action sequence '' @ x)]\<rparr>"

text \<open>Every resume point that is satisfied before is satisfied after.\<close>

definition keeps_points :: "'w builder \<Rightarrow> 'w builder \<Rightarrow> bool" where
  "keeps_points st st' = (\<forall>p. is_enabled (resume st) p \<longrightarrow> is_enabled (resume st') p)"

section \<open>Concrete inputs\<close>

text \<open>Settings that name every required value.\<close>

definition ok_spec :: pydict where
  "ok_spec = map (\<lambda>k. (k, Str ''v'')) required_values"

text \<open>
  A small host: its state holds the paths that exist, the mounted paths (a mount point
  is one that exists), the mount points that are busy (their \<^verbatim>\<open>umount\<close> fails) and what the archive library answers; the
  commands that fail are a parameter of the host. A mount command that succeeds makes
  its last argument a mount point, an unmount that succeeds removes it; every other
  command only succeeds or fails.
\<close>

record sim_world =
  sim_dirs :: "string list"
  sim_files :: "string list"
  sim_mounted :: "string list"
  sim_busy :: "string list"
  sim_extract_ok :: bool
  sim_compress_ok :: bool

definition sim_run_proc :: "string list list \<Rightarrow> string list \<Rightarrow> sim_world \<Rightarrow> bool \<times> sim_world" where
  "sim_run_proc failing argv w =
     (if argv \<in> set failing then (False, w)
      else if length argv = 2 \<and> hd argv = ''umount''
      then (if last argv \<in> set (sim_busy w) then (False, w)
            else (True, w\<lparr>sim_mounted := removeAll (last argv) (sim_mounted w)\<rparr>))
      else if argv \<noteq> [] \<and> hd argv \<in> {''mount'', ''mount_nullfs''}
      then (True, w\<lparr>sim_mounted := last argv # sim_mounted w\<rparr>)
      else (True, w))"

definition sim_run_op :: "event \<Rightarrow> sim_world \<Rightarrow> (exn + bool) \<times> sim_world" where
  "sim_run_op ev w =
     (case ev of
        Extract src dst m \<Rightarrow> (Inr (sim_extract_ok w), w)
      | Compress b f m \<Rightarrow> (Inr (sim_compress_ok w), w)
      | EnsureDirs p \<Rightarrow> (Inr True, w\<lparr>sim_dirs := p # sim_dirs w\<rparr>)
      | _ \<Rightarrow> (Inr True, w))"

definition sim_host_failing :: "string list list \<Rightarrow> sim_world host" where
  "sim_host_failing failing =
     \<lparr>path_exists = (\<lambda>w p. p \<in> set (sim_dirs w) \<or> p \<in> set (sim_files w)),
      path_isdir = (\<lambda>w p. p \<in> set (sim_dirs w)),
      path_isfile = (\<lambda>w p. p \<in> set (sim_files w)),
      ismount = (\<lambda>w p. p \<in> set (sim_mounted w) \<and> (p \<in> set (sim_dirs w) \<or> p \<in> set (sim_files w))),
      normpath = (\<lambda>p. p),
      uname = ''Linux'',
      run_proc = sim_run_proc failing,
      run_op = sim_run_op,
      file_check = (\<lambda>w p. Inr p),
      readfile = (\<lambda>w p. None),
      determine_mode = (\<lambda>w p. ''tar''),
      extension = (\<lambda>m. m),
      read_makeconf = (\<lambda>w p. [])\<rparr>"

text \<open>The host on which no command fails but the unmount of a busy mount point.\<close>

definition sim_host :: "sim_world host" where
  "sim_host = sim_host_failing []"

definition sim_settings :: settings where
  "sim_settings =
     \<lparr>options = [''autoresume''], action_sequence = [],
      chroot_path = ''/r'', sharedir = ''/s'', shdir = ''/sh'', controller_file = ''/c.sh'',
      source_path = ''/seed.tar'', source_path_hash = Some ''h1'',
      snapshot_path = ''/snap.tar'', snapshot_path_hash = ''h2'',
      snapshot_cache_path = ''/snapcache'', repo_basedir = ''/var/db/repos'',
      repo_name = ''gentoo'', compressor_arch = ''linux'', compressor_options = '''',
      compression_mode = ''xz'', pkgcache_path = ''/pk'', kerncache_path = ''/kc'',
      target_path = ''/out/stage'', stage_path = ''/r'', destpath = ''/r'',
      cleanables = [''/tmp/*''], port_conf = ''/etc/portage'', portage_confdir = None,
      portage_overlay = None, local_overlay = ''/ov'', make_conf = ''/etc/portage/make.conf'',
      interpreter = None, portage_prefix = None, var_tmpfs_portage = None,
      contents = None, digests = None, contents_map_set = False, hash_map_set = False,
      extra = Map.empty\<rparr>"

definition sim_world0 :: sim_world where
  "sim_world0 =
     \<lparr>sim_dirs = [''/r'', ''/r/proc'', ''/r/dev''], sim_files = [''/seed.tar''],
      sim_mounted = [], sim_busy = [],
      sim_extract_ok = True, sim_compress_ok = True\<rparr>"

text \<open>A builder with the two mounts \<^verbatim>\<open>proc\<close> and \<^verbatim>\<open>dev\<close> on a given host state.\<close>

definition sim_builder :: "sim_world \<Rightarrow> sim_world builder" where
  "sim_builder w =
     \<lparr>settings = sim_settings,
      mounts = [''proc'', ''dev''],
      target_mounts = [''proc'' \<mapsto> ''/proc'', ''dev'' \<mapsto> ''/dev''],
      mountmap = [''proc'' \<mapsto> Some ''/proc'', ''dev'' \<mapsto> Some ''/dev''],
      resume = \<lparr>points = Map.empty, basedir_present = True\<rparr>,
      world = w,
      trace = []\<rparr>"

text \<open>The host state in which both targets are mounted and \<^verbatim>\<open>/r/proc\<close> is busy.\<close>

definition sim_world_busy :: sim_world where
  "sim_world_busy = sim_world0\<lparr>sim_mounted := [''/r/dev'', ''/r/proc''], sim_busy := [''/r/proc'']\<rparr>"

text \<open>The host on which the bind mount of \<^verbatim>\<open>/dev\<close> fails, and the host state in which
  nothing is mounted yet but \<^verbatim>\<open>/r/proc\<close>, once mounted, is busy.\<close>

definition sim_host_nodev :: "sim_world host" where
  "sim_host_nodev = sim_host_failing [[''mount'', ''--bind'', ''/dev'', ''/r/dev'']]"

definition sim_world_sticky :: sim_world where
  "sim_world_sticky = sim_world0\<lparr>sim_busy := [''/r/proc'']\<rparr>"

text \<open>The definitions that evaluate the small host.\<close>

lemmas sim_simps = sim_host_def sim_host_failing_def sim_run_proc_def sim_run_op_def
  sim_builder_def sim_settings_def sim_world0_def sim_world_busy_def sim_host_nodev_def
  sim_world_sticky_def

section \<open>Properties\<close>

named_theorems act_simps
named_theorems pres_intros

lemma ret_app [act_simps]: "ret a st = (Inr a, st)" by (simp add: ret_def)
lemma raise_app [act_simps]: "raise e st = (Inl e, st)" by (simp add: raise_def)
lemma bnd_app [act_simps]:
  "bnd m f st = (case m st of (Inl e, st') \<Rightarrow> (Inl e, st') | (Inr a, st') \<Rightarrow> f a st')"
  by (simp add: bnd_def)
lemma seq_app [act_simps]:
  "seq m n st = (case m st of (Inl e, st') \<Rightarrow> (Inl e, st') | (Inr a, st') \<Rightarrow> n st')"
  by (simp add: seq_def bnd_def)
lemma reading_app [act_simps]: "reading f st = f st st" by (simp add: reading_def)
lemma whenx_True [act_simps]: "whenx True m = m" by (simp add: whenx_def)
lemma whenx_False [act_simps]: "whenx False m = ret ()" by (simp add: whenx_def)
lemma log_app [act_simps]: "log lvl msg st = (Inr (), st\<lparr>trace := trace st @ [Log lvl msg]\<rparr>)"
  by (simp add: log_def)

subsection \<open>Rules for relations preserved by actions\<close>

lemma frame_refl: "frame_rel R \<Longrightarrow> R s s"
  by (simp add: frame_rel_def)

lemma frame_trans: "frame_rel R \<Longrightarrow> R a b \<Longrightarrow> R b c \<Longrightarrow> R a c"
  unfolding frame_rel_def by blast

lemma frame_host: "frame_rel R \<Longrightarrow> R st (st\<lparr>world := w, trace := trace st @ evs\<rparr>)"
  by (simp add: frame_rel_def)

lemma frame_trace: "frame_rel R \<Longrightarrow> R st (st\<lparr>trace := trace st @ evs\<rparr>)"
  using frame_host[where R=R and st=st and w="world st" and evs=evs] by simp

lemma presD: "pres R m \<Longrightarrow> m st = (r, st') \<Longrightarrow> R st st'"
  unfolding pres_def by (metis snd_conv)

lemma presI: "(\<And>st r st'. m st = (r, st') \<Longrightarrow> R st st') \<Longrightarrow> pres R m"
  unfolding pres_def by (metis surjective_pairing)

lemma pres_ret [pres_intros]: "frame_rel R \<Longrightarrow> pres R (ret a)"
  by (simp add: pres_def ret_def frame_refl)

lemma pres_raise [pres_intros]: "frame_rel R \<Longrightarrow> pres R (raise e)"
  by (simp add: pres_def raise_def frame_refl)

lemma pres_bnd [pres_intros]:
  assumes "frame_rel R" "pres R m" "\<And>a. pres R (f a)"
  shows "pres R (bnd m f)"
proof (rule presI)
  fix st r st' assume b: "bnd m f st = (r, st')"
  obtain r1 st1 where m: "m st = (r1, st1)" by (cases "m st")
  from presD[OF assms(2) m] have 1: "R st st1" .
  show "R st st'"
  proof (cases r1)
    case (Inl e)
    with b m have "st' = st1" by (simp add: bnd_def)
    with 1 show ?thesis by simp
  next
    case (Inr a)
    with b m have "f a st1 = (r, st')" by (simp add: bnd_def)
    from presD[OF assms(3) this] 1 show ?thesis using frame_trans[OF assms(1)] by blast
  qed
qed

lemma pres_seq [pres_intros]: "frame_rel R \<Longrightarrow> pres R m \<Longrightarrow> pres R n \<Longrightarrow> pres R (seq m n)"
  by (simp add: seq_def pres_bnd)

lemma pres_whenx [pres_intros]: "frame_rel R \<Longrightarrow> pres R m \<Longrightarrow> pres R (whenx b m)"
  by (simp add: whenx_def pres_ret)

lemma pres_reading [pres_intros]: "(\<And>s. pres R (f s)) \<Longrightarrow> pres R (reading f)"
  by (simp add: pres_def reading_def)

lemma pres_if [pres_intros]: "pres R m \<Longrightarrow> pres R n \<Longrightarrow> pres R (if b then m else n)"
  by simp

lemma pres_case_option [pres_intros]:
  "pres R a \<Longrightarrow> (\<And>y. pres R (b y)) \<Longrightarrow> pres R (case x of None \<Rightarrow> a | Some y \<Rightarrow> b y)"
  by (cases x) simp_all

lemma pres_case_prod [pres_intros]:
  "(\<And>a b. pres R (f a b)) \<Longrightarrow> pres R (case p of (a, b) \<Rightarrow> f a b)"
  by (cases p) simp

lemma pres_case_pyval [pres_intros]:
  "(\<And>s. pres R (f s)) \<Longrightarrow> (\<And>l. pres R (g l)) \<Longrightarrow> pres R (case v of Str s \<Rightarrow> f s | Lst l \<Rightarrow> g l)"
  by (cases v) simp_all

lemma pres_try_catalyst [pres_intros]:
  assumes "frame_rel R" "pres R m" "pres R h"
  shows "pres R (try_catalyst m h)"
proof (rule presI)
  fix st r st' assume b: "try_catalyst m h st = (r, st')"
  obtain r1 st1 where m: "m st = (r1, st1)" by (cases "m st")
  from presD[OF assms(2) m] have 1: "R st st1" .
  show "R st st'"
  proof (cases "\<exists>msg. r1 = Inl (CatalystError msg)")
    case True
    with b m have "h st1 = (r, st')" by (auto simp: try_catalyst_def)
    from presD[OF assms(3) this] 1 show ?thesis using frame_trans[OF assms(1)] by blast
  next
    case False
    with b m have "st' = st1"
      by (auto simp: try_catalyst_def split: sum.splits exn.splits)
    with 1 show ?thesis by simp
  qed
qed

lemma pres_try_any [pres_intros]:
  assumes "frame_rel R" "pres R m" "\<And>e. pres R (h e)"
  shows "pres R (try_any m h)"
proof (rule presI)
  fix st r st' assume b: "try_any m h st = (r, st')"
  obtain r1 st1 where m: "m st = (r1, st1)" by (cases "m st")
  from presD[OF assms(2) m] have 1: "R st st1" .
  show "R st st'"
  proof (cases r1)
    case (Inl e)
    with b m have "h e st1 = (r, st')" by (simp add: try_any_def)
    from presD[OF assms(3) this] 1 show ?thesis using frame_trans[OF assms(1)] by blast
  next
    case (Inr a)
    with b m have "st' = st1" by (simp add: try_any_def)
    with 1 show ?thesis by simp
  qed
qed

lemma pres_foldm [pres_intros]:
  "frame_rel R \<Longrightarrow> (\<And>x acc. pres R (f x acc)) \<Longrightarrow> pres R (foldm xs acc f)"
  by (induction xs arbitrary: acc) (auto intro: pres_intros)

lemma pres_foreach [pres_intros]:
  "frame_rel R \<Longrightarrow> (\<And>x. pres R (f x)) \<Longrightarrow> pres R (foreach xs f)"
  by (induction xs) (auto intro: pres_intros)

lemma pres_log [pres_intros]: "frame_rel R \<Longrightarrow> pres R (log lvl msg)"
  by (simp add: pres_def log_def frame_trace)

lemma pres_perform [pres_intros]: "frame_rel R \<Longrightarrow> pres R (perform H ev)"
  by (simp add: pres_def perform_def frame_host split: prod.splits)

lemma pres_do_op [pres_intros]: "frame_rel R \<Longrightarrow> pres R (do_op H ev)"
  unfolding do_op_def by (intro pres_intros)

lemma pres_do_file_check [pres_intros]: "frame_rel R \<Longrightarrow> pres R (do_file_check H p)"
  by (simp add: pres_def do_file_check_def frame_refl)

lemma pres_cmd_None [pres_intros]: "frame_rel R \<Longrightarrow> pres R (cmd H argv None)"
  by (simp add: pres_def cmd_def Let_def frame_host split: prod.splits)

lemma pres_cmd_Some [pres_intros]:
  fixes f :: "('w, unit) action"
  assumes fr: "frame_rel R" and f: "pres R f"
  shows "pres R (cmd H argv (Some f))"
proof (rule presI)
  fix st r st' assume c: "cmd H argv (Some f) st = (r, st')"
  obtain ok w' where p: "run_proc H argv (world st) = (ok, w')" by (cases "run_proc H argv (world st)")
  let ?st1 = "st\<lparr>world := w', trace := trace st @ [Proc argv]\<rparr>"
  let ?h = "seq f (raise (cmd_failed argv)) :: ('w, unit) action"
  have 1: "R st ?st1" by (rule frame_host[OF fr])
  show "R st st'"
  proof (cases ok)
    case True
    with c p have "st' = ?st1" by (simp add: cmd_def)
    with 1 show ?thesis by simp
  next
    case False
    with c p have "?h ?st1 = (r, st')" by (simp add: cmd_def)
    moreover have "pres R ?h" using fr f by (intro pres_intros)
    ultimately have "R ?st1 st'" by (rule presD[rotated])
    with 1 show ?thesis using frame_trans[OF fr] by blast
  qed
qed

lemma pres_cmd_shell [pres_intros]: "frame_rel R \<Longrightarrow> pres R (cmd_shell H c)"
  unfolding cmd_shell_def by (intro pres_intros)

subsection \<open>The relations\<close>

lemma frame_same: "(\<And>st w t. P (st\<lparr>world := w, trace := t\<rparr>) = P st) \<Longrightarrow> frame_rel (same P)"
  by (simp add: frame_rel_def same_def)

lemma frame_same_resume: "frame_rel (same resume)" by (rule frame_same) simp
lemma frame_same_settings: "frame_rel (same settings)" by (rule frame_same) simp
lemma frame_same_mounts: "frame_rel (same mounts)" by (rule frame_same) simp
lemma frame_same_target_mounts: "frame_rel (same target_mounts)" by (rule frame_same) simp
lemma frame_same_mountmap: "frame_rel (same mountmap)" by (rule frame_same) simp

lemma frame_trace_grows: "frame_rel trace_grows"
  by (auto simp: frame_rel_def trace_grows_def)

lemma frame_no_new_points: "frame_rel no_new_points"
  unfolding frame_rel_def no_new_points_def by (simp, metis)

subsection \<open>The mount subsystem keeps the builder's own state\<close>

lemma pres_kill_chroot_pids [pres_intros]: "frame_rel R \<Longrightarrow> pres R (kill_chroot_pids H)"
  unfolding kill_chroot_pids_def setup_environment_def Let_def
  by (intro pres_intros)

lemma pres_mount_target [pres_intros]: "frame_rel R \<Longrightarrow> pres R (mount_target H p x)"
  unfolding mount_target_def by (intro pres_intros)

lemma pres_unbind_entry [pres_intros]: "frame_rel R \<Longrightarrow> pres R (unbind_entry H p x ouch)"
  unfolding unbind_entry_def by (intro pres_intros)

lemma pres_unbind [pres_intros]: "frame_rel R \<Longrightarrow> pres R (unbind H)"
  unfolding unbind_def Let_def by (intro pres_intros)

lemma pres_safety_check_entry [pres_intros]: "frame_rel R \<Longrightarrow> pres R (safety_check_entry H x)"
  unfolding safety_check_entry_def by (intro pres_intros)

lemma pres_mount_safety_check [pres_intros]: "frame_rel R \<Longrightarrow> pres R (mount_safety_check H)"
  unfolding mount_safety_check_def by (intro pres_intros)

lemma pres_mount_source [pres_intros]: "frame_rel R \<Longrightarrow> pres R (mount_source x)"
  unfolding mount_source_def by (intro pres_intros)

lemma pres_bind_entry [pres_intros]: "frame_rel R \<Longrightarrow> pres R (bind_entry H x)"
  unfolding bind_entry_def by (intro pres_intros)

lemma pres_bind [pres_intros]: "frame_rel R \<Longrightarrow> pres R (bind H)"
  unfolding bind_def by (intro pres_intros)


lemma keys_dict_set: "set (keys (dict_set k v d)) = insert k (set (keys d))"
  by (auto simp: dict_set_def keys_def split: if_splits prod.splits) force+

subsection \<open>Validation of the settings\<close>


lemma sublist_str_join: "m \<in> set ms \<Longrightarrow> sublist m (str_join sep ms)"
proof (induction sep ms rule: str_join.induct)
  case (3 sep x y ys)
  show ?case
  proof (cases "m = x")
    case True
    then show ?thesis by (simp add: sublist_append_rightI)
  next
    case False
    with 3 have "sublist m (str_join sep (y # ys))" by simp
    then obtain ps ss where "str_join sep (y # ys) = ps @ m @ ss"
      by (auto simp: sublist_def)
    then have "x @ sep @ str_join sep (y # ys) = (x @ sep @ ps) @ m @ ss" by simp
    then show ?thesis unfolding sublist_def str_join.simps by blast
  qed
qed simp_all

lemma kernel_vars_loop_keys:
  "kernel_vars_loop xs (vv, d) = (vv', d') \<Longrightarrow> set (keys d') = set (keys d)"
proof (induction xs arbitrary: vv d)
  case (Cons x xs)
  let ?k = "''boot/kernel/'' @ x @ ''/packages''"
  show ?case
  proof (cases "map_of d ?k")
    case None
    with Cons show ?thesis by simp
  next
    case (Some v)
    then have k: "?k \<in> set (keys d)"
      by (metis keys_def map_of_eq_None_iff option.distinct(1) set_map)
    show ?thesis
    proof (cases v)
      case (Str s)
      with Some Cons.prems have "kernel_vars_loop xs (vv @ kernel_keys x, dict_set ?k (Lst [s]) d) = (vv', d')"
        by simp
      from Cons.IH[OF this] k show ?thesis by (auto simp: keys_dict_set)
    next
      case (Lst l)
      with Some Cons.prems have "kernel_vars_loop xs (vv @ kernel_keys x, d) = (vv', d')"
        by simp
      from Cons.IH[OF this] show ?thesis .
    qed
  qed
qed simp

lemma set_valid_build_kernel_vars_keys:
  "set (keys d') = set (keys d)" if "set_valid_build_kernel_vars vv d = (vv', d')"
proof (cases "map_of d ''boot/kernel''")
  case None
  then show ?thesis using that by (simp add: set_valid_build_kernel_vars_def)
next
  case (Some v)
  show ?thesis
  proof (cases v)
    case (Str n)
    with Some that have "kernel_vars_loop [n] (vv, d) = (vv', d')"
      by (simp add: set_valid_build_kernel_vars_def del: kernel_vars_loop.simps)
    then show ?thesis by (rule kernel_vars_loop_keys)
  next
    case (Lst ns)
    with Some that have "kernel_vars_loop ns (vv, d) = (vv', d')"
      by (simp add: set_valid_build_kernel_vars_def del: kernel_vars_loop.simps)
    then show ?thesis by (rule kernel_vars_loop_keys)
  qed
qed

lemma addl_arg_parse_raises_iff:
  "(\<exists>e. addl_arg_parse vv rv d = Inl e) \<longleftrightarrow>
     (\<exists>x\<in>set (keys d). x \<notin> set vv \<and> x \<notin> set rv) \<or> (\<exists>x\<in>set rv. x \<notin> set (keys d))"
  unfolding addl_arg_parse_def addl_arg_messages_def Let_def
  by (auto simp: filter_empty_conv)

lemma addl_arg_parse_reports:
  assumes "addl_arg_parse vv rv d = Inl e"
  shows "\<exists>msg. e = CatalystError msg
           \<and> (\<forall>x\<in>set (keys d). x \<notin> set vv \<and> x \<notin> set rv \<longrightarrow> sublist (msg_not_recognized x) msg)
           \<and> (\<forall>x\<in>set rv. x \<notin> set (keys d) \<longrightarrow> sublist (msg_not_specified x) msg)"
proof -
  let ?ms = "addl_arg_messages vv rv d"
  from assms have e: "e = CatalystError (str_join also_sep ?ms)"
    unfolding addl_arg_parse_def Let_def by (auto split: if_splits)
  have 1: "\<forall>x\<in>set (keys d). x \<notin> set vv \<and> x \<notin> set rv \<longrightarrow> msg_not_recognized x \<in> set ?ms"
    unfolding addl_arg_messages_def by auto
  have 2: "\<forall>x\<in>set rv. x \<notin> set (keys d) \<longrightarrow> msg_not_specified x \<in> set ?ms"
    unfolding addl_arg_messages_def by auto
  from e 1 2 show ?thesis by (auto intro: sublist_str_join)
qed

text \<open>
  Claim C9. The validation at the start of construction raises exactly when the settings
  hold a key that is neither a valid nor a required value, or lack a required key; the
  error raised is a \<^verbatim>\<open>CatalystError\<close> whose message holds, for every such key, the
  message written for it and so the key itself; and when nothing is raised every
  required key is present. The valid values are those in force after
  \<^verbatim>\<open>set_valid_build_kernel_vars\<close> has extended them.
\<close>

theorem config_validation:
  assumes "set_valid_build_kernel_vars vv s = (vv', s')"
  shows "((\<exists>e. init_validate vv s = Inl e) \<longleftrightarrow>
            (\<exists>x\<in>set (keys s). x \<notin> set vv' \<and> x \<notin> set required_values)
            \<or> (\<exists>x\<in>set required_values. x \<notin> set (keys s)))
       \<and> (\<forall>e. init_validate vv s = Inl e \<longrightarrow>
            (\<exists>msg. e = CatalystError msg
               \<and> (\<forall>x\<in>set (keys s). x \<notin> set vv' \<and> x \<notin> set required_values
                      \<longrightarrow> sublist x msg \<and> sublist (msg_not_recognized x) msg)
               \<and> (\<forall>x\<in>set required_values. x \<notin> set (keys s)
                      \<longrightarrow> sublist x msg \<and> sublist (msg_not_specified x) msg)))
       \<and> ((\<exists>r. init_validate vv s = Inr r) \<longrightarrow> set required_values \<subseteq> set (keys s))"
proof -
  have k: "set (keys s') = set (keys s)"
    using assms by (rule set_valid_build_kernel_vars_keys)
  have iv: "init_validate vv s =
              (case addl_arg_parse vv' required_values s' of Inl e \<Rightarrow> Inl e | Inr _ \<Rightarrow> Inr (vv', s'))"
    using assms by (simp add: init_validate_def)
  have raises: "(\<exists>e. init_validate vv s = Inl e) \<longleftrightarrow> (\<exists>e. addl_arg_parse vv' required_values s' = Inl e)"
    unfolding iv by (auto split: sum.splits)
  have a: "(\<exists>e. init_validate vv s = Inl e) \<longleftrightarrow>
            (\<exists>x\<in>set (keys s). x \<notin> set vv' \<and> x \<notin> set required_values)
            \<or> (\<exists>x\<in>set required_values. x \<notin> set (keys s))"
    unfolding raises addl_arg_parse_raises_iff k ..
  have b: "\<exists>msg. e = CatalystError msg
               \<and> (\<forall>x\<in>set (keys s). x \<notin> set vv' \<and> x \<notin> set required_values
                      \<longrightarrow> sublist x msg \<and> sublist (msg_not_recognized x) msg)
               \<and> (\<forall>x\<in>set required_values. x \<notin> set (keys s)
                      \<longrightarrow> sublist x msg \<and> sublist (msg_not_specified x) msg)"
    if "init_validate vv s = Inl e" for e
  proof -
    from that have "addl_arg_parse vv' required_values s' = Inl e"
      unfolding iv by (auto split: sum.splits)
    from addl_arg_parse_reports[OF this] obtain msg where m: "e = CatalystError msg"
      "\<forall>x\<in>set (keys s). x \<notin> set vv' \<and> x \<notin> set required_values \<longrightarrow> sublist (msg_not_recognized x) msg"
      "\<forall>x\<in>set required_values. x \<notin> set (keys s) \<longrightarrow> sublist (msg_not_specified x) msg"
      unfolding k by blast
    have s1: "sublist x (msg_not_recognized x)" for x
      unfolding msg_not_recognized_def by (rule sublist_appendI)
    have s2: "sublist x (msg_not_specified x)" for x
      unfolding msg_not_specified_def by (rule sublist_appendI)
    have t: "sublist x msg" if "sublist (f x) msg" "sublist x (f x)" for x and f :: "string \<Rightarrow> string"
      using that by (meson sublist_order.order.trans)
    from m(2) s1 have m2: "\<forall>x\<in>set (keys s). x \<notin> set vv' \<and> x \<notin> set required_values
                      \<longrightarrow> sublist x msg \<and> sublist (msg_not_recognized x) msg"
      using t[of msg_not_recognized] by blast
    from m(3) s2 have m3: "\<forall>x\<in>set required_values. x \<notin> set (keys s)
                      \<longrightarrow> sublist x msg \<and> sublist (msg_not_specified x) msg"
      using t[of msg_not_specified] by blast
    from m(1) m2 m3 show ?thesis by blast
  qed
  have c: "set required_values \<subseteq> set (keys s)" if "\<exists>r. init_validate vv s = Inr r"
  proof -
    from that have "\<not> (\<exists>e. init_validate vv s = Inl e)" by auto
    with a show ?thesis by blast
  qed
  from a b c show ?thesis by blast
qed


theorem config_validation_witness:
  "(\<exists>r. init_validate valid_values ok_spec = Inr r)
   \<and> (\<exists>msg. init_validate valid_values (ok_spec @ [(''archdir'', Str ''/a'')]) = Inl (CatalystError msg)
        \<and> sublist ''archdir'' msg)"
proof -
  have 1: "set_valid_build_kernel_vars valid_values ok_spec = (valid_values, ok_spec)"
    by (simp add: set_valid_build_kernel_vars_def ok_spec_def required_values_def)
  have k1: "keys ok_spec = required_values"
    by (simp add: ok_spec_def keys_def comp_def)
  have "\<not> (\<exists>e. init_validate valid_values ok_spec = Inl e)"
    using config_validation[OF 1] unfolding k1 by blast
  then have a: "\<exists>r. init_validate valid_values ok_spec = Inr r"
    by (cases "init_validate valid_values ok_spec") auto
  let ?bad = "ok_spec @ [(''archdir'', Str ''/a'')]"
  have 2: "set_valid_build_kernel_vars valid_values ?bad = (valid_values, ?bad)"
    by (simp add: set_valid_build_kernel_vars_def ok_spec_def required_values_def)
  have k2: "keys ?bad = required_values @ [''archdir'']"
    by (simp add: ok_spec_def keys_def comp_def)
  have off: "''archdir'' \<in> set (keys ?bad) \<and> ''archdir'' \<notin> set valid_values \<and> ''archdir'' \<notin> set required_values"
    unfolding k2 by (simp add: valid_values_def required_values_def)
  with config_validation[OF 2] obtain e where e: "init_validate valid_values ?bad = Inl e"
    by blast
  with config_validation[OF 2] off have "\<exists>msg. e = CatalystError msg \<and> sublist ''archdir'' msg"
    by blast
  with e a show ?thesis by auto
qed

subsection \<open>The trace of unbind\<close>


lemmas unbind_entry_unfold =
  unbind_entry_def mount_target_def act_simps cmd_def try_catalyst_def kill_chroot_pids_def
  setup_environment_def cmd_failed_def kill_command_def Let_def

lemma unbind_entry_trace:
  fixes H :: "'w host" and mypath :: string
  assumes tm: "target_mounts st x = Some tm"
  defines "t \<equiv> normpath H (mypath @ tm)"
  defines "k \<equiv> kill_command H st"
  shows "\<exists>r st'. unbind_entry H mypath x ouch st = (r, st')
           \<and> ((\<exists>out. r = Inr (ouch \<or> still_mounted out)
                      \<and> trace st' = trace st @ entry_events k t out)
               \<or> (r = Inl (cmd_failed [k])
                   \<and> (\<exists>w. path_exists H w k \<and> \<not> fst (run_proc H [k] w))
                   \<and> trace st' = trace st @ [Proc [''umount'', t],
                        Log Warning (''First attempt to unmount failed: '' @ t),
                        Log Warning ''Killing any pids still running in the chroot'',
                        Proc [k]]))"
proof -
  let ?goal = "\<lambda>r st'. (\<exists>out. r = Inr (ouch \<or> still_mounted out)
                      \<and> trace st' = trace st @ entry_events k t out)
               \<or> (r = Inl (cmd_failed [k])
                   \<and> (\<exists>w. path_exists H w k \<and> \<not> fst (run_proc H [k] w))
                   \<and> trace st' = trace st @ [Proc [''umount'', t],
                        Log Warning (''First attempt to unmount failed: '' @ t),
                        Log Warning ''Killing any pids still running in the chroot'',
                        Proc [k]])"
  obtain r st' where u: "unbind_entry H mypath x ouch st = (r, st')"
    by (cases "unbind_entry H mypath x ouch st")
  obtain ok1 w1 where p1: "run_proc H [''umount'', t] (world st) = (ok1, w1)"
    by (cases "run_proc H [''umount'', t] (world st)")
  obtain okk w2 where pk: "run_proc H [k] w1 = (okk, w2)"
    by (cases "run_proc H [k] w1")
  obtain ok2 w3 where p2: "run_proc H [''umount'', t] w2 = (ok2, w3)"
    by (cases "run_proc H [''umount'', t] w2")
  obtain ok2' w3' where p2': "run_proc H [''umount'', t] w1 = (ok2', w3')"
    by (cases "run_proc H [''umount'', t] w1")
  consider (absent) "\<not> path_exists H (world st) t"
    | (notmounted) "path_exists H (world st) t" "\<not> ismount H (world st) t"
    | (unmounted) "path_exists H (world st) t" "ismount H (world st) t" "ok1"
    | (nokill) "path_exists H (world st) t" "ismount H (world st) t" "\<not> ok1" "\<not> path_exists H w1 k"
    | (killfail) "path_exists H (world st) t" "ismount H (world st) t" "\<not> ok1" "path_exists H w1 k" "\<not> okk"
    | (killed) "path_exists H (world st) t" "ismount H (world st) t" "\<not> ok1" "path_exists H w1 k" "okk"
    by blast
  then have "?goal r st'"
  proof cases
    case absent
    with u tm have "r = Inr ouch" "trace st' = trace st @ entry_events k t Absent"
      by (auto simp: unbind_entry_unfold t_def)
    then show ?thesis by (intro disjI1 exI[of _ Absent]) simp
  next
    case notmounted
    with u tm have "r = Inr ouch" "trace st' = trace st @ entry_events k t NotMounted"
      by (auto simp: unbind_entry_unfold t_def)
    then show ?thesis by (intro disjI1 exI[of _ NotMounted]) simp
  next
    case unmounted
    with u tm p1 have "r = Inr ouch" "trace st' = trace st @ entry_events k t Unmounted"
      by (auto simp: unbind_entry_unfold t_def)
    then show ?thesis by (intro disjI1 exI[of _ Unmounted]) simp
  next
    case nokill
    with u tm p1 p2' have "r = Inr (ouch \<or> \<not> ok2')"
        "trace st' = trace st @ entry_events k t (Retried False ok2')"
      by (cases ok2'; auto simp: unbind_entry_unfold t_def k_def)+
    then show ?thesis by (intro disjI1 exI[of _ "Retried False ok2'"]) simp
  next
    case killfail
    with u tm p1 pk have "r = Inl (cmd_failed [k])"
        "trace st' = trace st @ [Proc [''umount'', t],
                        Log Warning (''First attempt to unmount failed: '' @ t),
                        Log Warning ''Killing any pids still running in the chroot'',
                        Proc [k]]"
      by (auto simp: unbind_entry_unfold t_def k_def)
    moreover from killfail pk have "\<exists>w. path_exists H w k \<and> \<not> fst (run_proc H [k] w)"
      by (intro exI[of _ w1]) simp
    ultimately show ?thesis by (intro disjI2) simp
  next
    case killed
    with u tm p1 pk p2 have "r = Inr (ouch \<or> \<not> ok2)"
        "trace st' = trace st @ entry_events k t (Retried True ok2)"
      by (cases ok2; auto simp: unbind_entry_unfold t_def k_def)+
    then show ?thesis by (intro disjI1 exI[of _ "Retried True ok2"]) simp
  qed
  with u show ?thesis by blast
qed



lemma unbind_entry_same:
  "unbind_entry H mypath x ouch st = (r, st') \<Longrightarrow>
     settings st' = settings st \<and> target_mounts st' = target_mounts st"
  using presD[OF pres_unbind_entry[OF frame_same_settings], of H mypath x ouch st r st']
        presD[OF pres_unbind_entry[OF frame_same_target_mounts], of H mypath x ouch st r st']
  by (simp add: same_def)



subsection \<open>The order of the unmounts\<close>
lemma unbind_trace_grows: "unbind H st = (r, st') \<Longrightarrow> trace st' = trace st @ new_events st st'"
  using presD[OF pres_unbind[OF frame_trace_grows], of H st r st']
  by (auto simp: trace_grows_def new_events_def)

lemma mount_point_the:
  "target_mounts st x \<noteq> None \<Longrightarrow>
     normpath H (chroot_path (settings st) @ the (target_mounts st x)) = mount_point H st x"
  by (auto simp: mount_point_def)




subsection \<open>Escalation and the aggregate error\<close>



subsection \<open>The mount safety check\<close>
lemma foreach_append: "foreach (xs @ ys) f = seq (foreach xs f) (foreach ys f)"
  by (induction xs) (auto simp: act_simps fun_eq_iff split: prod.splits sum.splits)

lemma unbind_loop_raises_catalyst:
  fixes H :: "'w host"
  assumes "\<forall>x\<in>set xs. target_mounts st x \<noteq> None"
    and "foldm xs ouch (unbind_entry H mypath) st = (Inl e, st')"
  shows "\<exists>msg. e = CatalystError msg"
  using assms
proof (induction xs arbitrary: st ouch)
  case Nil
  then show ?case by (simp add: act_simps)
next
  case (Cons x xs)
  then obtain tm where tm: "target_mounts st x = Some tm" by auto
  obtain r1 st1 where e: "unbind_entry H mypath x ouch st = (r1, st1)"
    by (cases "unbind_entry H mypath x ouch st")
  show ?case
  proof (cases r1)
    case (Inl e1)
    with e Cons.prems(2) have "e = e1" by (simp add: act_simps)
    moreover from unbind_entry_trace[OF tm, of H mypath ouch] e Inl
    have "e1 = cmd_failed [kill_command H st]" by auto
    ultimately show ?thesis by (simp add: cmd_failed_def)
  next
    case (Inr o1)
    with e Cons.prems(2) have f: "foldm xs o1 (unbind_entry H mypath) st1 = (Inl e, st')"
      by (simp add: act_simps)
    from unbind_entry_same[OF e] Cons.prems(1)
    have "\<forall>x\<in>set xs. target_mounts st1 x \<noteq> None" by simp
    from Cons.IH[OF this f] show ?thesis .
  qed
qed

lemma unbind_raises_catalyst:
  assumes "has_targets st" "unbind H st = (Inl e, st')"
  shows "\<exists>msg. e = CatalystError msg"
proof -
  let ?xs = "rev (mounts st)"
  have ht: "\<forall>x\<in>set ?xs. target_mounts st x \<noteq> None"
    using assms(1) by (simp add: has_targets_def)
  obtain r1 st1 where f: "foldm ?xs False (unbind_entry H (chroot_path (settings st))) st = (r1, st1)"
    by (cases "foldm ?xs False (unbind_entry H (chroot_path (settings st))) st")
  show ?thesis
  proof (cases r1)
    case (Inl e1)
    with f assms(2) have "e = e1" by (simp add: unbind_def Let_def act_simps)
    with unbind_loop_raises_catalyst[OF ht] f Inl show ?thesis by blast
  next
    case (Inr o1)
    with f assms(2) show ?thesis
      by (auto simp: unbind_def Let_def act_simps split: if_splits)
  qed
qed

lemma safety_check_entry_skip:
  assumes "target_mounts st x \<noteq> None"
    and "\<not> (path_exists H (world st) (mount_point H st x) \<and> ismount H (world st) (mount_point H st x))"
  shows "safety_check_entry H x st = (Inr (), st)"
  using assms
  by (auto simp: safety_check_entry_def mount_target_def mount_point_def act_simps)

lemma safety_check_skips:
  assumes "\<forall>x\<in>set xs. target_mounts st x \<noteq> None"
    and "\<forall>x\<in>set xs. \<not> (path_exists H (world st) (mount_point H st x)
                          \<and> ismount H (world st) (mount_point H st x))"
  shows "foreach xs (safety_check_entry H) st = (Inr (), st)"
  using assms by (induction xs) (simp_all add: act_simps safety_check_entry_skip)

lemma safety_check_entry_mounted:
  fixes H :: "'w host"
  assumes tm: "target_mounts st x \<noteq> None" and ht: "has_targets st"
    and ex: "path_exists H (world st) (mount_point H st x)"
    and mo: "ismount H (world st) (mount_point H st x)"
    and u: "unbind H (st\<lparr>trace := trace st
                 @ [Log Warning (mount_point H st x @ '' is still mounted; performing auto-bind-umount...'')]\<rparr>)
              = (r, st2)"
  shows "safety_check_entry H x st =
           (if (\<exists>e. r = Inl e) \<or> ismount H (world st2) (mount_point H st x)
            then (Inl (CatalystError (''Unable to auto-unbind '' @ mount_point H st x)), st2)
            else (Inr (), st2\<lparr>trace := trace st2 @ [Log Notice ''Auto-unbind successful...'']\<rparr>))"
proof -
  let ?st1 = "st\<lparr>trace := trace st
                 @ [Log Warning (mount_point H st x @ '' is still mounted; performing auto-bind-umount...'')]\<rparr>"
  from tm obtain t where t: "target_mounts st x = Some t" by auto
  have ht1: "has_targets ?st1" using ht by (simp add: has_targets_def)
  show ?thesis
  proof (cases r)
    case (Inl e)
    with unbind_raises_catalyst[OF ht1] u obtain msg where "e = CatalystError msg" by blast
    with Inl u t ex mo show ?thesis
      by (simp add: safety_check_entry_def mount_target_def mount_point_def act_simps try_catalyst_def)
  next
    case (Inr a)
    with u t ex mo show ?thesis
      by (simp add: safety_check_entry_def mount_target_def mount_point_def act_simps try_catalyst_def)
  qed
qed

text \<open>
  Claim C3. For a builder whose mount names all have a target: when the working root
  does not exist, or when no target both exists and is a mount point, the check returns
  without raising and leaves the builder as it was. When the working root exists and
  \<open>x\<close> is the first mount name whose target exists and is a mount point, the check logs
  a warning and calls \<^verbatim>\<open>unbind\<close> once; if that call raises, or the target is a mount
  point afterwards, the check raises \<^verbatim>\<open>CatalystError\<close> naming the target; otherwise it
  goes on with the mount names after \<open>x\<close>.
\<close>

theorem mount_safety_check_protocol:
  fixes H :: "'w host"
  assumes "has_targets st"
  shows "(\<not> path_exists H (world st) (chroot_path (settings st))
            \<longrightarrow> mount_safety_check H st = (Inr (), st))
       \<and> ((\<forall>x\<in>set (mounts st). \<not> is_mounted H st x)
            \<longrightarrow> mount_safety_check H st = (Inr (), st))
       \<and> (\<forall>pre x post r st2.
             path_exists H (world st) (chroot_path (settings st))
             \<and> mounts st = pre @ x # post \<and> (\<forall>y\<in>set pre. \<not> is_mounted H st y)
             \<and> is_mounted H st x
             \<and> unbind H (still_mounted_warned H st x) = (r, st2)
            \<longrightarrow> mount_safety_check H st =
                  (if (\<exists>e. r = Inl e) \<or> ismount H (world st2) (mount_point H st x)
                   then (Inl (CatalystError (''Unable to auto-unbind '' @ mount_point H st x)), st2)
                   else foreach post (safety_check_entry H)
                          (st2\<lparr>trace := trace st2 @ [Log Notice ''Auto-unbind successful...'']\<rparr>)))"
proof (intro conjI impI allI)
  assume "\<not> path_exists H (world st) (chroot_path (settings st))"
  then show "mount_safety_check H st = (Inr (), st)"
    by (simp add: mount_safety_check_def act_simps)
next
  assume sk: "\<forall>x\<in>set (mounts st). \<not> is_mounted H st x"
  have ht: "\<forall>x\<in>set (mounts st). target_mounts st x \<noteq> None"
    using assms by (simp add: has_targets_def)
  from safety_check_skips[OF ht] sk
  have "foreach (mounts st) (safety_check_entry H) st = (Inr (), st)"
    by (simp add: is_mounted_def)
  then show "mount_safety_check H st = (Inr (), st)"
    by (simp add: mount_safety_check_def act_simps)
next
  fix pre x post r st2
  assume a: "path_exists H (world st) (chroot_path (settings st))
             \<and> mounts st = pre @ x # post \<and> (\<forall>y\<in>set pre. \<not> is_mounted H st y)
             \<and> is_mounted H st x
             \<and> unbind H (still_mounted_warned H st x) = (r, st2)"
  have ht: "\<forall>x\<in>set (mounts st). target_mounts st x \<noteq> None"
    using assms by (simp add: has_targets_def)
  with a have hp: "\<forall>y\<in>set pre. target_mounts st y \<noteq> None" and hx: "target_mounts st x \<noteq> None"
    by simp_all
  from safety_check_skips[OF hp] a
  have p: "foreach pre (safety_check_entry H) st = (Inr (), st)"
    by (simp add: is_mounted_def)
  from a have ex: "path_exists H (world st) (mount_point H st x)"
    and mo: "ismount H (world st) (mount_point H st x)"
    and u: "unbind H (st\<lparr>trace := trace st
                 @ [Log Warning (mount_point H st x @ '' is still mounted; performing auto-bind-umount...'')]\<rparr>)
              = (r, st2)"
    by (simp_all add: is_mounted_def still_mounted_warned_def)
  note e = safety_check_entry_mounted[OF hx assms ex mo u]
  have "mount_safety_check H st = foreach (pre @ x # post) (safety_check_entry H) st"
    using a by (simp add: mount_safety_check_def act_simps)
  also have "\<dots> = (case safety_check_entry H x st of
                      (Inl e, st') \<Rightarrow> (Inl e, st')
                    | (Inr _, st') \<Rightarrow> foreach post (safety_check_entry H) st')"
    using p by (simp add: foreach_append act_simps)
  finally show "mount_safety_check H st =
                  (if (\<exists>e. r = Inl e) \<or> ismount H (world st2) (mount_point H st x)
                   then (Inl (CatalystError (''Unable to auto-unbind '' @ mount_point H st x)), st2)
                   else foreach post (safety_check_entry H)
                          (st2\<lparr>trace := trace st2 @ [Log Notice ''Auto-unbind successful...'']\<rparr>))"
    unfolding e by simp
qed

theorem mount_safety_check_protocol_witness:
  "has_targets (sim_builder sim_world0)
   \<and> mount_safety_check sim_host (sim_builder (sim_world0\<lparr>sim_dirs := []\<rparr>))
       = (Inr (), sim_builder (sim_world0\<lparr>sim_dirs := []\<rparr>))
   \<and> mount_safety_check sim_host (sim_builder sim_world0) = (Inr (), sim_builder sim_world0)
   \<and> fst (mount_safety_check sim_host (sim_builder sim_world_busy))
       = Inl (CatalystError ''Unable to auto-unbind /r/proc'')"
proof -
  have h: "has_targets (sim_builder w)" for w
    by (simp add: has_targets_def sim_builder_def)
  have a: "mount_safety_check sim_host (sim_builder (sim_world0\<lparr>sim_dirs := []\<rparr>))
       = (Inr (), sim_builder (sim_world0\<lparr>sim_dirs := []\<rparr>))"
    using mount_safety_check_protocol[OF h[of "sim_world0\<lparr>sim_dirs := []\<rparr>"], where H=sim_host]
    by (simp add: sim_simps)
  have b: "mount_safety_check sim_host (sim_builder sim_world0) = (Inr (), sim_builder sim_world0)"
    using mount_safety_check_protocol[OF h[of sim_world0], where H=sim_host]
    by (simp add: sim_simps is_mounted_def mount_point_def)
  let ?st = "sim_builder sim_world_busy"
  obtain r st2 where u: "unbind sim_host (still_mounted_warned sim_host ?st ''proc'') = (r, st2)"
    by (cases "unbind sim_host (still_mounted_warned sim_host ?st ''proc'')")
  have r: "\<exists>e. r = Inl e"
    using u[symmetric] by (simp add: still_mounted_warned_def unbind_def unbind_entry_unfold sim_simps mount_point_def)
  have pre: "path_exists sim_host (world ?st) (chroot_path (settings ?st))
             \<and> mounts ?st = [] @ ''proc'' # [''dev''] \<and> (\<forall>y\<in>set []. \<not> is_mounted sim_host ?st y)
             \<and> is_mounted sim_host ?st ''proc''
             \<and> unbind sim_host (still_mounted_warned sim_host ?st ''proc'') = (r, st2)"
    using u by (simp add: sim_simps is_mounted_def mount_point_def)
  have mp: "mount_point sim_host ?st ''proc'' = ''/r/proc''"
    by (simp add: sim_simps mount_point_def)
  from mount_safety_check_protocol[OF h[of sim_world_busy], where H=sim_host] pre r
  have "mount_safety_check sim_host ?st
          = (Inl (CatalystError (''Unable to auto-unbind '' @ mount_point sim_host ?st ''proc'')), st2)"
    by (metis (no_types, lifting))
  then have c: "fst (mount_safety_check sim_host ?st) = Inl (CatalystError ''Unable to auto-unbind /r/proc'')"
    unfolding mp by simp
  from h a b c show ?thesis by blast
qed

subsection \<open>Binding and its rollback\<close>
lemma unbind_entry_world:
  fixes H :: "'w host" and mypath :: string
  assumes un: "unmounting_host H (kill_command H st)"
    and tm: "target_mounts st x = Some tm"
    and u: "unbind_entry H mypath x ouch st = (Inr b, st')"
  shows "(\<forall>p. \<not> ismount H (world st) p \<longrightarrow> \<not> ismount H (world st') p)
         \<and> (ouch \<longrightarrow> b) \<and> (\<not> b \<longrightarrow> \<not> ismount H (world st') (normpath H (mypath @ tm)))"
proof -
  let ?t = "normpath H (mypath @ tm)"
  let ?k = "kill_command H st"
  obtain ok1 w1 where p1: "run_proc H [''umount'', ?t] (world st) = (ok1, w1)"
    by (cases "run_proc H [''umount'', ?t] (world st)")
  obtain okk w2 where pk: "run_proc H [?k] w1 = (okk, w2)"
    by (cases "run_proc H [?k] w1")
  obtain ok2 w3 where p2: "run_proc H [''umount'', ?t] w2 = (ok2, w3)"
    by (cases "run_proc H [''umount'', ?t] w2")
  obtain ok2' w3' where p2': "run_proc H [''umount'', ?t] w1 = (ok2', w3')"
    by (cases "run_proc H [''umount'', ?t] w1")
  from un have mex: "\<And>w t. ismount H w t \<Longrightarrow> path_exists H w t"
    and clr: "\<And>w t. fst (run_proc H [''umount'', t] w) \<Longrightarrow> \<not> ismount H (snd (run_proc H [''umount'', t] w)) t"
    and mono: "\<And>w t p. \<not> ismount H w p \<Longrightarrow> \<not> ismount H (snd (run_proc H [''umount'', t] w)) p"
    and kmono: "\<And>w p. \<not> ismount H w p \<Longrightarrow> \<not> ismount H (snd (run_proc H [?k] w)) p"
    unfolding unmounting_host_def by blast+
  have m1: "\<not> ismount H (world st) p \<Longrightarrow> \<not> ismount H w1 p" for p
    using mono[of "world st" p ?t] p1 by simp
  have mk: "\<not> ismount H w1 p \<Longrightarrow> \<not> ismount H w2 p" for p
    using kmono[of w1 p] pk by simp
  have m2: "\<not> ismount H w2 p \<Longrightarrow> \<not> ismount H w3 p" for p
    using mono[of w2 p ?t] p2 by simp
  have m2': "\<not> ismount H w1 p \<Longrightarrow> \<not> ismount H w3' p" for p
    using mono[of w1 p ?t] p2' by simp
  have c1: "ok1 \<Longrightarrow> \<not> ismount H w1 ?t" using clr[of ?t "world st"] p1 by simp
  have c2: "ok2 \<Longrightarrow> \<not> ismount H w3 ?t" using clr[of ?t w2] p2 by simp
  have c2': "ok2' \<Longrightarrow> \<not> ismount H w3' ?t" using clr[of ?t w1] p2' by simp
  consider (absent) "\<not> path_exists H (world st) ?t"
    | (notmounted) "path_exists H (world st) ?t" "\<not> ismount H (world st) ?t"
    | (unmounted) "path_exists H (world st) ?t" "ismount H (world st) ?t" "ok1"
    | (nokill) "path_exists H (world st) ?t" "ismount H (world st) ?t" "\<not> ok1" "\<not> path_exists H w1 ?k"
    | (killfail) "path_exists H (world st) ?t" "ismount H (world st) ?t" "\<not> ok1" "path_exists H w1 ?k" "\<not> okk"
    | (killed) "path_exists H (world st) ?t" "ismount H (world st) ?t" "\<not> ok1" "path_exists H w1 ?k" "okk"
    by blast
  then show ?thesis
  proof cases
    case absent
    with u tm have "b = ouch" "world st' = world st"
      by (auto simp: unbind_entry_unfold)
    with absent mex show ?thesis by auto
  next
    case notmounted
    with u tm have "b = ouch" "world st' = world st"
      by (auto simp: unbind_entry_unfold)
    with notmounted show ?thesis by auto
  next
    case unmounted
    with u tm p1 have "b = ouch" "world st' = w1"
      by (auto simp: unbind_entry_unfold)
    with unmounted m1 c1 show ?thesis by auto
  next
    case nokill
    with u tm p1 p2' have "b = (ouch \<or> \<not> ok2')" "world st' = w3'"
      by (cases ok2'; auto simp: unbind_entry_unfold)+
    with m1 m2' c2' show ?thesis by auto
  next
    case killfail
    with u tm p1 pk have False
      by (auto simp: unbind_entry_unfold)
    then show ?thesis ..
  next
    case killed
    with u tm p1 pk p2 have "b = (ouch \<or> \<not> ok2)" "world st' = w3"
      by (cases ok2; auto simp: unbind_entry_unfold)+
    with m1 mk m2 c2 show ?thesis by auto
  qed
qed

lemma unbind_loop_world:
  fixes H :: "'w host"
  assumes "unmounting_host H (kill_command H st)"
    and "\<forall>x\<in>set xs. target_mounts st x \<noteq> None"
    and "foldm xs ouch (unbind_entry H mypath) st = (Inr False, st')"
  shows "(\<forall>p. \<not> ismount H (world st) p \<longrightarrow> \<not> ismount H (world st') p)
         \<and> (\<forall>x\<in>set xs. \<not> ismount H (world st') (normpath H (mypath @ the (target_mounts st x))))"
  using assms
proof (induction xs arbitrary: st ouch)
  case Nil
  then show ?case by (simp add: act_simps)
next
  case (Cons x xs)
  then obtain tm where tm: "target_mounts st x = Some tm" by auto
  obtain r1 st1 where e: "unbind_entry H mypath x ouch st = (r1, st1)"
    by (cases "unbind_entry H mypath x ouch st")
  with Cons.prems(3) obtain b where r1: "r1 = Inr b"
    and f: "foldm xs b (unbind_entry H mypath) st1 = (Inr False, st')"
    by (cases r1) (auto simp: act_simps)
  from unbind_entry_same[OF e] have same: "settings st1 = settings st" "target_mounts st1 = target_mounts st"
    by simp_all
  then have un1: "unmounting_host H (kill_command H st1)"
    using Cons.prems(1) by (simp add: kill_command_def)
  have ht1: "\<forall>x\<in>set xs. target_mounts st1 x \<noteq> None" using Cons.prems(2) same by simp
  from Cons.IH[OF un1 ht1 f]
  have IH: "\<forall>p. \<not> ismount H (world st1) p \<longrightarrow> \<not> ismount H (world st') p"
     "\<forall>x\<in>set xs. \<not> ismount H (world st') (normpath H (mypath @ the (target_mounts st x)))"
    using same by simp_all
  from unbind_entry_world[OF Cons.prems(1) tm e[unfolded r1]]
  have w: "\<forall>p. \<not> ismount H (world st) p \<longrightarrow> \<not> ismount H (world st1) p"
     "ouch \<longrightarrow> b" "\<not> b \<longrightarrow> \<not> ismount H (world st1) (normpath H (mypath @ tm))"
    by blast+
  have "\<not> b"
  proof
    assume b
    have sticky: "\<And>st r st'. foldm xs True (unbind_entry H mypath) st = (Inr r, st') \<Longrightarrow> r"
    proof (induction xs)
      case Nil
      then show ?case by (simp add: act_simps)
    next
      case (Cons y ys)
      obtain r2 st2 where e2: "unbind_entry H mypath y True st = (r2, st2)"
        by (cases "unbind_entry H mypath y True st")
      show ?case
      proof (cases r2)
        case (Inl e)
        with e2 Cons.prems show ?thesis by (simp add: act_simps)
      next
        case (Inr b2)
        have "b2"
          using e2 Inr
          by (auto simp: unbind_entry_def mount_target_def act_simps cmd_def try_catalyst_def
                Let_def split: option.splits if_splits prod.splits sum.splits exn.splits)
        with e2 Inr Cons.prems Cons.IH show ?thesis by (simp add: act_simps)
      qed
    qed
    from f \<open>b\<close> have "foldm xs True (unbind_entry H mypath) st1 = (Inr False, st')" by simp
    from sticky[OF this] show False .
  qed
  with w IH tm show ?case by auto
qed

lemma unbind_clears_mounts:
  fixes H :: "'w host"
  assumes "unmounting_host H (kill_command H st)" "has_targets st"
    and "unbind H st = (Inr (), st')"
  shows "\<forall>x\<in>set (mounts st). \<not> ismount H (world st') (mount_point H st x)"
proof -
  let ?xs = "rev (mounts st)"
  let ?p = "chroot_path (settings st)"
  have ht: "\<forall>x\<in>set ?xs. target_mounts st x \<noteq> None"
    using assms(2) by (simp add: has_targets_def)
  from assms(3) have "foldm ?xs False (unbind_entry H ?p) st = (Inr False, st')"
    by (auto simp: unbind_def Let_def act_simps split: prod.splits sum.splits if_splits)
  from unbind_loop_world[OF assms(1) ht this] ht show ?thesis
    by (simp add: mount_point_the)
qed

lemma mount_command_head:
  "mount_command H s src t = Some c \<Longrightarrow> hd c \<in> {''mount'', ''mount_nullfs''} \<and> last c = t"
  by (auto simp: mount_command_def split: if_splits option.splits)

lemma bind_entry_cases:
  fixes H :: "'w host"
  assumes tm: "target_mounts st x = Some tm" and src: "mountmap st x = Some (Some src)"
    and ens: "ensure_dirs_succeeds H"
  shows "(\<exists>st1. bind_entry H x st = (Inr (), st1))
       \<or> (\<exists>c stf ru st'. bind_entry H x st
               = ((case ru of Inl eu \<Rightarrow> Inl eu | Inr _ \<Rightarrow> Inl (cmd_failed c)), st')
            \<and> unbind H stf = (ru, st')
            \<and> (\<exists>evs. trace stf = trace st @ evs @ [Proc c])
            \<and> mount_command H (settings st) src (mount_point H st x) = Some c
            \<and> settings stf = settings st \<and> mounts stf = mounts st
            \<and> target_mounts stf = target_mounts st)"
proof -
  let ?t = "normpath H (chroot_path (settings st) @ tm)"
  have mp: "mount_point H st x = ?t" using tm by (simp add: mount_point_def)
  from ens obtain b1 where "fst (run_op H (EnsureDirs ?t) (world st)) = Inr b1"
    unfolding ensure_dirs_succeeds_def by blast
  then obtain w1 where e1: "run_op H (EnsureDirs ?t) (world st) = (Inr b1, w1)"
    by (cases "run_op H (EnsureDirs ?t) (world st)") auto
  let ?cond = "\<not> path_exists H w1 src \<and> src \<notin> {''maybe_tmpfs'', ''tmpfs'', ''shmfs''}"
  from ens obtain b2 where "fst (run_op H (EnsureDirs src) w1) = Inr b2"
    unfolding ensure_dirs_succeeds_def by blast
  then obtain w2' where e2: "run_op H (EnsureDirs src) w1 = (Inr b2, w2')"
    by (cases "run_op H (EnsureDirs src) w1") auto
  define st2 where "st2 = (if ?cond
      then st\<lparr>world := w2', trace := trace st @ [EnsureDirs ?t, EnsureDirs src]\<rparr>
      else st\<lparr>world := w1, trace := trace st @ [EnsureDirs ?t]\<rparr>)"
  have be: "bind_entry H x st =
              (case mount_command H (settings st) src ?t of
                 None \<Rightarrow> (Inr (), st2)
               | Some c \<Rightarrow> cmd H c (Some (unbind H)) st2)"
    using tm src e1 e2
    by (auto simp: bind_entry_def mount_target_def mount_source_def act_simps do_op_def
          perform_def st2_def split: option.splits)
  show ?thesis
  proof (cases "mount_command H (settings st) src ?t")
    case None
    with be show ?thesis by simp
  next
    case (Some c)
    obtain ok w3 where p: "run_proc H c (world st2) = (ok, w3)"
      by (cases "run_proc H c (world st2)")
    let ?stf = "st2\<lparr>world := w3, trace := trace st2 @ [Proc c]\<rparr>"
    show ?thesis
    proof (cases ok)
      case True
      with be Some p show ?thesis by (simp add: cmd_def)
    next
      case False
      obtain ru st' where u: "unbind H ?stf = (ru, st')" by (cases "unbind H ?stf")
      have "bind_entry H x st = ((case ru of Inl eu \<Rightarrow> Inl eu | Inr _ \<Rightarrow> Inl (cmd_failed c)), st')"
        using be Some p False u by (simp add: cmd_def act_simps split: sum.splits)
      moreover have "\<exists>evs. trace ?stf = trace st @ evs @ [Proc c]"
        by (simp add: st2_def)
      moreover have "settings ?stf = settings st \<and> mounts ?stf = mounts st
            \<and> target_mounts ?stf = target_mounts st"
        by (simp add: st2_def)
      ultimately show ?thesis using u Some mp by (intro disjI2 exI[of _ c] exI[of _ ?stf] exI[of _ ru] exI[of _ st']) simp
    qed
  qed
qed

lemma bind_entry_same:
  "bind_entry H x st = (r, st') \<Longrightarrow>
     settings st' = settings st \<and> target_mounts st' = target_mounts st
     \<and> mountmap st' = mountmap st \<and> mounts st' = mounts st \<and> trace_grows st st'"
  using presD[OF pres_bind_entry[OF frame_same_settings], of H x st r st']
        presD[OF pres_bind_entry[OF frame_same_target_mounts], of H x st r st']
        presD[OF pres_bind_entry[OF frame_same_mountmap], of H x st r st']
        presD[OF pres_bind_entry[OF frame_same_mounts], of H x st r st']
        presD[OF pres_bind_entry[OF frame_trace_grows], of H x st r st']
  by (simp add: same_def)

text \<open>The loop of bind: it fails only through a mount command, after unbind.\<close>

lemma bind_loop_failure:
  fixes H :: "'w host"
  assumes "\<forall>x\<in>set xs. target_mounts st x \<noteq> None"
    and "\<forall>x\<in>set xs. \<exists>src. mountmap st x = Some (Some src)"
    and "ensure_dirs_succeeds H"
    and "foreach xs (bind_entry H) st = (Inl e, st')"
  shows "\<exists>x src c stf ru. x \<in> set xs \<and> mountmap st x = Some (Some src)
            \<and> mount_command H (settings st) src (mount_point H st x) = Some c
            \<and> unbind H stf = (ru, st')
            \<and> e = (case ru of Inl eu \<Rightarrow> eu | Inr _ \<Rightarrow> cmd_failed c)
            \<and> (\<exists>evs. trace stf = trace st @ evs @ [Proc c])
            \<and> settings stf = settings st \<and> mounts stf = mounts st
            \<and> target_mounts stf = target_mounts st"
  using assms
proof (induction xs arbitrary: st)
  case Nil
  then show ?case by (simp add: act_simps)
next
  case (Cons x xs)
  then obtain tm src where tm: "target_mounts st x = Some tm" and src: "mountmap st x = Some (Some src)"
    by auto
  from bind_entry_cases[OF tm src Cons.prems(3)]
  show ?case
  proof
    assume "\<exists>st1. bind_entry H x st = (Inr (), st1)"
    then obtain st1 where e1: "bind_entry H x st = (Inr (), st1)" by blast
    from bind_entry_same[OF e1] have same: "settings st1 = settings st"
      "target_mounts st1 = target_mounts st" "mountmap st1 = mountmap st" "mounts st1 = mounts st"
      "trace_grows st st1" by simp_all
    from e1 Cons.prems(4) have f: "foreach xs (bind_entry H) st1 = (Inl e, st')"
      by (simp add: act_simps)
    have mp: "mount_point H st1 = mount_point H st"
      unfolding mount_point_def same(1,2) ..
    from Cons.IH[OF _ _ Cons.prems(3) f] Cons.prems(1,2) same
    obtain y src' c stf ru where IH: "y \<in> set xs" "mountmap st y = Some (Some src')"
       "mount_command H (settings st) src' (mount_point H st y) = Some c"
       "unbind H stf = (ru, st')" "e = (case ru of Inl eu \<Rightarrow> eu | Inr _ \<Rightarrow> cmd_failed c)"
       "\<exists>evs. trace stf = trace st1 @ evs @ [Proc c]"
       "settings stf = settings st" "mounts stf = mounts st" "target_mounts stf = target_mounts st"
      unfolding mp by auto
    from IH(6) same(5) have "\<exists>evs. trace stf = trace st @ evs @ [Proc c]"
      by (auto simp: trace_grows_def)
    with IH show ?thesis
      by (intro exI[of _ y] exI[of _ src'] exI[of _ c] exI[of _ stf] exI[of _ ru]) simp
  next
    assume "\<exists>c stf ru st'. bind_entry H x st
               = ((case ru of Inl eu \<Rightarrow> Inl eu | Inr _ \<Rightarrow> Inl (cmd_failed c)), st')
            \<and> unbind H stf = (ru, st')
            \<and> (\<exists>evs. trace stf = trace st @ evs @ [Proc c])
            \<and> mount_command H (settings st) src (mount_point H st x) = Some c
            \<and> settings stf = settings st \<and> mounts stf = mounts st
            \<and> target_mounts stf = target_mounts st"
    then obtain c stf ru st1 where f: "bind_entry H x st
               = ((case ru of Inl eu \<Rightarrow> Inl eu | Inr _ \<Rightarrow> Inl (cmd_failed c)), st1)"
       "unbind H stf = (ru, st1)" "\<exists>evs. trace stf = trace st @ evs @ [Proc c]"
       "mount_command H (settings st) src (mount_point H st x) = Some c"
       "settings stf = settings st" "mounts stf = mounts st" "target_mounts stf = target_mounts st"
      by blast
    from f(1) Cons.prems(4) have "st' = st1" "e = (case ru of Inl eu \<Rightarrow> eu | Inr _ \<Rightarrow> cmd_failed c)"
      by (auto simp: act_simps split: sum.splits)
    with f src show ?thesis
      by (intro exI[of _ x] exI[of _ src] exI[of _ c] exI[of _ stf] exI[of _ ru]) simp
  qed
qed

lemmas bind_unfold = bind_def bind_entry_def mount_source_def mount_command_def do_op_def perform_def
  unbind_def unbind_entry_unfold

text \<open>
  Claim C5, as amended. For a builder whose mount names all have a target and a source,
  on a host whose \<^verbatim>\<open>ensure_dirs\<close> does not raise: \<^verbatim>\<open>bind\<close> raises only after the mount
  command \<open>c\<close> of some entry has failed, and then \<^verbatim>\<open>unbind\<close> has been run on the state
  right after that command. If that \<^verbatim>\<open>unbind\<close> raised, its error is the one that
  propagates. If it returned, the error is that of the failed mount command, and on a
  host where unmounting works no target of the mount list is a mount point afterwards.
\<close>

theorem bind_rollback:
  fixes H :: "'w host"
  assumes "has_targets st" "has_sources st" "ensure_dirs_succeeds H"
    and "bind H st = (Inl e, st')"
  shows "\<exists>x src c stf ru. x \<in> set (mounts st) \<and> mountmap st x = Some (Some src)
            \<and> mount_command H (settings st) src (mount_point H st x) = Some c
            \<and> (\<exists>evs. trace stf = trace st @ evs @ [Proc c])
            \<and> unbind H stf = (ru, st')
            \<and> (case ru of
                  Inl eu \<Rightarrow> e = eu
                | Inr _ \<Rightarrow> e = cmd_failed c
                     \<and> (unmounting_host H (kill_command H st)
                          \<longrightarrow> (\<forall>y\<in>set (mounts st). \<not> ismount H (world st') (mount_point H st y))))"
proof -
  have ht: "\<forall>x\<in>set (mounts st). target_mounts st x \<noteq> None"
    using assms(1) by (simp add: has_targets_def)
  have hs: "\<forall>x\<in>set (mounts st). \<exists>src. mountmap st x = Some (Some src)"
    using assms(2) by (simp add: has_sources_def)
  from assms(4) have f: "foreach (mounts st) (bind_entry H) st = (Inl e, st')"
    by (simp add: bind_def act_simps)
  from bind_loop_failure[OF ht hs assms(3) f]
  obtain x src c stf ru where l: "x \<in> set (mounts st)" "mountmap st x = Some (Some src)"
      "mount_command H (settings st) src (mount_point H st x) = Some c"
      "unbind H stf = (ru, st')"
      "e = (case ru of Inl eu \<Rightarrow> eu | Inr _ \<Rightarrow> cmd_failed c)"
      "\<exists>evs. trace stf = trace st @ evs @ [Proc c]"
      "settings stf = settings st" "mounts stf = mounts st" "target_mounts stf = target_mounts st"
    by blast
  have mp: "mount_point H stf = mount_point H st"
    unfolding mount_point_def l(7,9) ..
  have kc: "kill_command H stf = kill_command H st"
    by (simp add: kill_command_def l(7))
  have htf: "has_targets stf" using assms(1) by (simp add: has_targets_def l(8,9))
  have "case ru of
          Inl eu \<Rightarrow> e = eu
        | Inr _ \<Rightarrow> e = cmd_failed c
             \<and> (unmounting_host H (kill_command H st)
                  \<longrightarrow> (\<forall>y\<in>set (mounts st). \<not> ismount H (world st') (mount_point H st y)))"
  proof (cases ru)
    case (Inl eu)
    with l(5) show ?thesis by simp
  next
    case (Inr u)
    have "\<forall>y\<in>set (mounts st). \<not> ismount H (world st') (mount_point H st y)"
      if un: "unmounting_host H (kill_command H st)"
    proof -
      from l(4) Inr have "unbind H stf = (Inr (), st')" by simp
      from unbind_clears_mounts[OF _ htf this] un show ?thesis
        unfolding kc mp l(8) by simp
    qed
    with Inr l(5) show ?thesis by simp
  qed
  with l show ?thesis by blast
qed

lemma sim_ensure_dirs: "ensure_dirs_succeeds (sim_host_failing f)"
  by (auto simp: ensure_dirs_succeeds_def sim_host_failing_def sim_run_op_def)

lemma sim_unmounting:
  "[k] \<notin> set f \<Longrightarrow> k \<notin> {''mount'', ''mount_nullfs''} \<Longrightarrow> unmounting_host (sim_host_failing f) k"
  by (auto simp: unmounting_host_def sim_host_failing_def sim_run_proc_def)

theorem bind_rollback_witness:
  "has_targets (sim_builder sim_world0) \<and> has_sources (sim_builder sim_world0)
   \<and> ensure_dirs_succeeds sim_host_nodev
   \<and> fst (bind sim_host_nodev (sim_builder sim_world0))
       = Inl (cmd_failed [''mount'', ''--bind'', ''/dev'', ''/r/dev''])
   \<and> unmounting_host sim_host_nodev (kill_command sim_host_nodev (sim_builder sim_world0))
   \<and> (\<exists>x src c stf ru. x \<in> set (mounts (sim_builder sim_world0))
         \<and> mountmap (sim_builder sim_world0) x = Some (Some src)
         \<and> mount_command sim_host_nodev (settings (sim_builder sim_world0)) src
              (mount_point sim_host_nodev (sim_builder sim_world0) x) = Some c
         \<and> (\<exists>evs. trace stf = trace (sim_builder sim_world0) @ evs @ [Proc c])
         \<and> unbind sim_host_nodev stf = (ru, snd (bind sim_host_nodev (sim_builder sim_world0)))
         \<and> (case ru of
               Inl eu \<Rightarrow> cmd_failed [''mount'', ''--bind'', ''/dev'', ''/r/dev''] = eu
             | Inr _ \<Rightarrow> cmd_failed [''mount'', ''--bind'', ''/dev'', ''/r/dev''] = cmd_failed c
                  \<and> (\<forall>y\<in>set (mounts (sim_builder sim_world0)).
                        \<not> ismount sim_host_nodev (world (snd (bind sim_host_nodev (sim_builder sim_world0))))
                            (mount_point sim_host_nodev (sim_builder sim_world0) y))))"
proof -
  let ?st = "sim_builder sim_world0"
  let ?e = "cmd_failed [''mount'', ''--bind'', ''/dev'', ''/r/dev'']"
  have h1: "has_targets ?st" by (simp add: has_targets_def sim_builder_def)
  have h2: "has_sources ?st" by (simp add: has_sources_def sim_builder_def)
  have h3: "ensure_dirs_succeeds sim_host_nodev"
    unfolding sim_host_nodev_def by (rule sim_ensure_dirs)
  have b: "fst (bind sim_host_nodev ?st) = Inl ?e"
    by (simp add: bind_unfold sim_simps)
  then have h4: "bind sim_host_nodev ?st = (Inl ?e, snd (bind sim_host_nodev ?st))"
    by (metis prod.collapse)
  have un: "unmounting_host sim_host_nodev (kill_command sim_host_nodev ?st)"
    unfolding sim_host_nodev_def
    by (rule sim_unmounting) (simp_all add: kill_command_def sim_simps)
  from bind_rollback[OF h1 h2 h3 h4]
  obtain x src c stf ru where r: "x \<in> set (mounts ?st)"
      "mountmap ?st x = Some (Some src)"
      "mount_command sim_host_nodev (settings ?st) src (mount_point sim_host_nodev ?st x) = Some c"
      "\<exists>evs. trace stf = trace ?st @ evs @ [Proc c]"
      "unbind sim_host_nodev stf = (ru, snd (bind sim_host_nodev ?st))"
      "case ru of
         Inl eu \<Rightarrow> ?e = eu
       | Inr _ \<Rightarrow> ?e = cmd_failed c
            \<and> (unmounting_host sim_host_nodev (kill_command sim_host_nodev ?st)
                 \<longrightarrow> (\<forall>y\<in>set (mounts ?st).
                        \<not> ismount sim_host_nodev (world (snd (bind sim_host_nodev ?st)))
                            (mount_point sim_host_nodev ?st y)))"
    by blast
  from r(6) un have "case ru of
               Inl eu \<Rightarrow> ?e = eu
             | Inr _ \<Rightarrow> ?e = cmd_failed c
                  \<and> (\<forall>y\<in>set (mounts ?st).
                        \<not> ismount sim_host_nodev (world (snd (bind sim_host_nodev ?st)))
                            (mount_point sim_host_nodev ?st y))"
    by (cases ru) simp_all
  with r have "\<exists>x src c stf ru. x \<in> set (mounts ?st)
         \<and> mountmap ?st x = Some (Some src)
         \<and> mount_command sim_host_nodev (settings ?st) src (mount_point sim_host_nodev ?st x) = Some c
         \<and> (\<exists>evs. trace stf = trace ?st @ evs @ [Proc c])
         \<and> unbind sim_host_nodev stf = (ru, snd (bind sim_host_nodev ?st))
         \<and> (case ru of
               Inl eu \<Rightarrow> ?e = eu
             | Inr _ \<Rightarrow> ?e = cmd_failed c
                  \<and> (\<forall>y\<in>set (mounts ?st).
                        \<not> ismount sim_host_nodev (world (snd (bind sim_host_nodev ?st)))
                            (mount_point sim_host_nodev ?st y)))"
    by blast
  with h1 h2 h3 b un show ?thesis by blast
qed

text \<open>
  The claim as it was stated fails: where \<^verbatim>\<open>/r/proc\<close> is busy once mounted and the bind
  mount of \<^verbatim>\<open>/dev\<close> fails, \<^verbatim>\<open>bind\<close> mounts \<^verbatim>\<open>/r/proc\<close>, fails on \<^verbatim>\<open>/r/dev\<close>, and raises the
  error of \<^verbatim>\<open>unbind\<close> while \<^verbatim>\<open>/r/proc\<close>, which was no mount point before, still is one.
\<close>

theorem bind_leaves_mount:
  "\<not> ismount sim_host_nodev (world (sim_builder sim_world_sticky)) ''/r/proc''
   \<and> fst (bind sim_host_nodev (sim_builder sim_world_sticky)) = Inl (CatalystError msg_unmount_failed)
   \<and> Proc [''mount'', ''--bind'', ''/proc'', ''/r/proc'']
        \<in> set (trace (snd (bind sim_host_nodev (sim_builder sim_world_sticky))))
   \<and> ismount sim_host_nodev (world (snd (bind sim_host_nodev (sim_builder sim_world_sticky)))) ''/r/proc''"
proof -
  have 1: "\<not> ismount sim_host_nodev (world (sim_builder sim_world_sticky)) ''/r/proc''"
    by (simp add: sim_simps)
  have 2: "fst (bind sim_host_nodev (sim_builder sim_world_sticky)) = Inl (CatalystError msg_unmount_failed)"
    by (simp add: bind_unfold sim_simps)
  have 3: "Proc [''mount'', ''--bind'', ''/proc'', ''/r/proc'']
        \<in> set (trace (snd (bind sim_host_nodev (sim_builder sim_world_sticky))))"
    by (simp add: bind_unfold sim_simps)
  have 4: "ismount sim_host_nodev (world (snd (bind sim_host_nodev (sim_builder sim_world_sticky)))) ''/r/proc''"
    by (simp add: bind_unfold sim_simps)
  from 1 2 3 4 show ?thesis by blast
qed

end
